theory Spec2Isabelle
  imports Main
begin

section \<open>Data structures and global variables of manager.c\<close>

text \<open>
  The process manager keeps a table of 64 process records, the index of the
  running record and two time variables. The model is the manager process (the parent
  of the fork in \<open>main\<close>); every answer of the operating system (the result of a
  \<open>kill\<close>, of \<open>fork\<close>, of \<open>waitpid\<close>, the value of \<open>time\<close>) is an
  input of the operation that asks for it.
\<close>

datatype process_status = RUNNING | READY | STOPPED | TERMINATED | UNUSED

record process_record =
  pid :: int
  status :: process_status
  remaining_runtime :: int

definition MAX_PROCESSES :: nat where
  "MAX_PROCESSES = 64"

definition INT_MAX :: int where
  "INT_MAX = 2147483647"

text \<open>
  The global variables. \<open>time_t\<close> values are seconds and are kept as integers;
  \<open>difftime\<close> of two of them is their difference (exact in a double for every clock
  value below \<open>2^53\<close>), assigned back to the \<open>time_t\<close> variable \<open>elapsed_time\<close>.
\<close>

record manager =
  process_records :: "process_record list"
  running_process_index :: int
  start_time :: int
  elapsed_time :: int

text \<open>
  A value of type \<open>long\<close> stored into an \<open>int\<close> field keeps its low 32 bits
  (two's complement), which is what \<open>p->remaining_runtime -= elapsed_time\<close> does.
\<close>

definition to_int :: "int \<Rightarrow> int" where
  "to_int x = (x + 2147483648) mod 4294967296 - 2147483648"

text \<open>
  Static storage is zero-initialised; \<open>initialise_process_records\<close> then sets every
  status to \<open>UNUSED\<close>.
\<close>

definition zero_record :: process_record where
  "zero_record = \<lparr>pid = 0, status = RUNNING, remaining_runtime = 0\<rparr>"

definition initialise_process_records :: "manager \<Rightarrow> manager" where
  "initialise_process_records s =
     s\<lparr>process_records :=
         fold (\<lambda>i rs. rs[i := (rs ! i)\<lparr>status := UNUSED\<rparr>]) [0..<MAX_PROCESSES]
           (process_records s)\<rparr>"

definition static_storage :: manager where
  "static_storage =
     \<lparr>process_records = replicate MAX_PROCESSES zero_record,
      running_process_index = -1, start_time = 0, elapsed_time = 0\<rparr>"

definition initial_state :: manager where
  "initial_state = initialise_process_records static_storage"

section \<open>Utility functions\<close>

definition get_unused_process_index :: "manager \<Rightarrow> int" where
  "get_unused_process_index s =
     (case find (\<lambda>i. status (process_records s ! i) = UNUSED) [0..<MAX_PROCESSES] of
        Some i \<Rightarrow> int i
      | None \<Rightarrow> -1)"

definition get_terminated_process_index :: "manager \<Rightarrow> int" where
  "get_terminated_process_index s =
     (case find (\<lambda>i. status (process_records s ! i) = TERMINATED) [0..<MAX_PROCESSES] of
        Some i \<Rightarrow> int i
      | None \<Rightarrow> -1)"

text \<open>
  The loop of \<open>find_min_runtime_process\<close> carries \<open>(min_index, min_runtime)\<close>;
  \<open>find_min_step\<close> is its body at index \<open>i\<close>.
\<close>

definition find_min_step :: "process_record list \<Rightarrow> nat \<Rightarrow> int \<times> int \<Rightarrow> int \<times> int" where
  "find_min_step rs i acc =
     (if status (rs ! i) = READY \<and> remaining_runtime (rs ! i) < snd acc
      then (int i, remaining_runtime (rs ! i))
      else acc)"

definition find_min_runtime_process :: "manager \<Rightarrow> int" where
  "find_min_runtime_process s =
     fst (fold (find_min_step (process_records s)) [0..<MAX_PROCESSES] (-1, INT_MAX))"


section \<open>The system interface\<close>

text \<open>
  What the manager does to the outside world is recorded as a list of events, in order:
  each call of \<open>kill\<close>, \<open>fork\<close> and \<open>execvp\<close>, and each line it prints
  (\<open>printf\<close>, \<open>fprintf\<close> and \<open>perror\<close> alike), named after its text.
\<close>

datatype signal = SIGSTOP | SIGCONT | SIGTERM

datatype message =
    Invalid_arguments_for_perform_run
  | Invalid_remaining_runtime_for_perform_run
  | Maximum_number_of_processes_reached
  | Fork_failed_in_perform_run
  | Kill_failed_in_perform_run
  | First_Kill_failed_in_scheduler
  | Second_Kill_failed_in_scheduler
  | The_process_ID_must_be_a_positive_integer
  | Kill_failed_in_perform_stop
  | Process_is_not_running int
  | Process_not_found int
  | Process_was_not_in_STOPPED_status int
  | Kill_failed_in_perform_kill
  | Process_is_already_terminated int
  | Kill_failed_in_perform_exit
  | Exiting_the_process_manager
  | List_line int process_status
  | No_processes_to_list
  | Unknown_command string

datatype event = Kill int signal | Fork | Execvp "string list" | Print message

text \<open>
  The answers of the operating system during one operation, one field per call site:
  \<open>fork_ret\<close> is what \<open>fork\<close> returns in \<open>perform_run\<close>; \<open>cmd_kill_ok\<close> says whether
  the command handler's own \<open>kill\<close> returned 0 (lines 273, 309, 378) and \<open>cmd_time\<close>
  is its own \<open>time(NULL)\<close> (lines 268, 319, 386); \<open>exit_kill_ok i\<close> is the result of
  the \<open>kill\<close> for slot \<open>i\<close> in \<open>perform_exit\<close>; the \<open>sched_\<close> fields are the two
  \<open>kill\<close>s (lines 177, 204) and the two clock readings (lines 183, 211) of the
  scheduler; \<open>tick_time\<close> is the clock reading of the main loop (line 519).
\<close>

record env =
  fork_ret :: int
  cmd_kill_ok :: bool
  cmd_time :: int
  exit_kill_ok :: "nat \<Rightarrow> bool"
  sched_stop_ok :: bool
  sched_fold_time :: int
  sched_cont_ok :: bool
  sched_dispatch_time :: int
  tick_time :: int

section \<open>Runtime accounting\<close>

text \<open>
  The same five lines stand in \<open>sigchld_handler\<close>, \<open>scheduler\<close>, \<open>perform_stop\<close>,
  \<open>perform_kill\<close> and \<open>main\<close>:
  \<^verbatim>\<open>elapsed_time = difftime(current_time, start_time);
  if (elapsed_time > 0) { p->remaining_runtime -= elapsed_time; start_time = current_time; }\<close>
  with \<open>p\<close> the record at index \<open>i\<close>.
\<close>

definition fold_elapsed :: "int \<Rightarrow> nat \<Rightarrow> manager \<Rightarrow> manager" where
  "fold_elapsed current_time i s =
     (let el = current_time - start_time s;
          s1 = s\<lparr>elapsed_time := el\<rparr>;
          p = process_records s ! i
      in if el > 0
         then s1\<lparr>process_records :=
                   (process_records s)[i := p\<lparr>remaining_runtime := to_int (remaining_runtime p - el)\<rparr>],
                 start_time := current_time\<rparr>
         else s1)"

definition set_status :: "nat \<Rightarrow> process_status \<Rightarrow> manager \<Rightarrow> manager" where
  "set_status i st s =
     s\<lparr>process_records := (process_records s)[i := (process_records s ! i)\<lparr>status := st\<rparr>]\<rparr>"

section \<open>Scheduler\<close>

text \<open>
  The second half of \<open>scheduler\<close>, lines 194 to 211: start the ready process with the
  minimum remaining runtime, if there is one.
\<close>

definition dispatch_min :: "env \<Rightarrow> manager \<Rightarrow> event list \<times> manager" where
  "dispatch_min e s =
     (let min_index = find_min_runtime_process s
      in if min_index < 0 then ([], s)
         else
           let p = process_records s ! nat min_index;
               s1 = (set_status (nat min_index) RUNNING s)\<lparr>running_process_index := min_index\<rparr>
           in if \<not> sched_cont_ok e
              then ([Kill (pid p) SIGCONT, Print Second_Kill_failed_in_scheduler], s1)
              else ([Kill (pid p) SIGCONT], s1\<lparr>start_time := sched_dispatch_time e\<rparr>))"

text \<open>
  \<open>scheduler\<close>: lines 175 to 192 stop the running process, if there is one, and
  return at once when that \<open>kill\<close> fails; then the second half runs.
\<close>

definition scheduler :: "env \<Rightarrow> manager \<Rightarrow> event list \<times> manager" where
  "scheduler e s =
     (if 0 \<le> running_process_index s
      then
        let r = nat (running_process_index s);
            p = process_records s ! r
        in if \<not> sched_stop_ok e
           then ([Kill (pid p) SIGSTOP, Print First_Kill_failed_in_scheduler], s)
           else
             let s1 = (set_status r READY (fold_elapsed (sched_fold_time e) r s))
                        \<lparr>running_process_index := -1\<rparr>;
                 (ev, s2) = dispatch_min e s1
             in (Kill (pid p) SIGSTOP # ev, s2)
      else dispatch_min e s)"

section \<open>Command arguments\<close>

text \<open>
  \<open>args\<close> is the \<open>NULL\<close>-terminated array filled by \<open>get_input\<close>: the tokens of the
  command line, \<open>args[0]\<close> the command name. \<open>arg args k\<close> is \<open>args[k]\<close>, \<open>None\<close>
  for the terminating \<open>NULL\<close>; the handlers never read past it.
\<close>

definition arg :: "string list \<Rightarrow> nat \<Rightarrow> string option" where
  "arg args k = (if k < length args then Some (args ! k) else None)"

text \<open>
  \<open>atoi\<close> of the C library: skip white space, read an optional sign and the decimal
  digits that follow, stop at the first other character. Out of range the C standard
  leaves the result open; glibc returns \<open>(int) strtol(s, NULL, 10)\<close>, which is what is
  written here.
\<close>

definition isspace :: "char \<Rightarrow> bool" where
  "isspace c = (of_char c \<in> {32 :: nat, 9, 10, 11, 12, 13})"

definition isdigit :: "char \<Rightarrow> bool" where
  "isdigit c = (48 \<le> (of_char c :: nat) \<and> (of_char c :: nat) \<le> 57)"

definition LONG_MAX :: int where
  "LONG_MAX = 9223372036854775807"

definition strtol :: "string \<Rightarrow> int" where
  "strtol str =
     (let s1 = dropWhile isspace str;
          neg = (s1 \<noteq> [] \<and> hd s1 = CHR ''-'');
          s2 = (if s1 \<noteq> [] \<and> (hd s1 = CHR ''-'' \<or> hd s1 = CHR ''+'') then tl s1 else s1);
          v = foldl (\<lambda>a c. a * 10 + (of_char c - 48)) 0 (takeWhile isdigit s2)
      in if neg then max (- LONG_MAX - 1) (- v) else min LONG_MAX v)"

definition atoi :: "string \<Rightarrow> int" where
  "atoi str = to_int (strtol str)"

section \<open>Core functions: run, list, stop, resume, kill and exit\<close>

text \<open>
  Lines 235 to 239 of \<open>perform_run\<close>: the first unused record, else the first
  terminated one, else a negative index.
\<close>

definition run_index :: "manager \<Rightarrow> int" where
  "run_index s =
     (let index = get_unused_process_index s
      in if index < 0 then get_terminated_process_index s else index)"

text \<open>
  \<open>perform_run\<close>. The argument is \<open>None\<close> for a \<open>NULL\<close> array. \<open>fork\<close> returning 0
  is the child: it leaves its copy of the table as it is and calls \<open>execvp\<close>, to
  become the program or, failing that, to exit; the manager is the parent.
\<close>

fun perform_run :: "env \<Rightarrow> string list option \<Rightarrow> manager \<Rightarrow> event list \<times> manager" where
  "perform_run e None s = ([Print Invalid_arguments_for_perform_run], s)"
| "perform_run e (Some args) s =
     (if arg args 1 = None \<or> arg args 2 = None \<or> arg args 3 = None
      then ([Print Invalid_arguments_for_perform_run], s)
      else if atoi (args ! 3) \<le> 0
      then ([Print Invalid_remaining_runtime_for_perform_run], s)
      else
        let index = run_index s
        in if index < 0 then ([Print Maximum_number_of_processes_reached], s)
           else if fork_ret e < 0 then ([Fork, Print Fork_failed_in_perform_run], s)
           else if fork_ret e = 0 then ([Fork, Execvp (tl args)], s)
           else
             let s1 = s\<lparr>process_records := (process_records s)[nat index :=
                          \<lparr>pid = fork_ret e, status = READY, remaining_runtime = atoi (args ! 3)\<rparr>]\<rparr>
             in if running_process_index s < 0
                then
                  let s2 = (set_status (nat index) RUNNING (s1\<lparr>start_time := cmd_time e\<rparr>))
                             \<lparr>running_process_index := index\<rparr>;
                      (ev, s3) = scheduler e s2
                  in (Fork # ev, s3)
                else if \<not> cmd_kill_ok e
                then ([Fork, Kill (fork_ret e) SIGSTOP, Print Kill_failed_in_perform_run], s1)
                else
                  let (ev, s3) = scheduler e s1
                  in (Fork # Kill (fork_ret e) SIGSTOP # ev, s3))"

definition perform_list :: "manager \<Rightarrow> event list \<times> manager" where
  "perform_list s =
     (let used = filter (\<lambda>i. status (process_records s ! i) \<noteq> UNUSED) [0..<MAX_PROCESSES]
      in (if used = [] then [Print No_processes_to_list]
          else map (\<lambda>i. Print (List_line (pid (process_records s ! i))
                                          (status (process_records s ! i)))) used,
          s))"

text \<open>
  The handlers for \<open>stop\<close>, \<open>resume\<close> and \<open>kill\<close> look the process up by its id: the
  first record, in index order, whose \<open>pid\<close> field is the given one, whatever its status.
\<close>

definition find_pid :: "int \<Rightarrow> manager \<Rightarrow> nat option" where
  "find_pid p s = find (\<lambda>i. pid (process_records s ! i) = p) [0..<MAX_PROCESSES]"

definition perform_stop :: "env \<Rightarrow> int \<Rightarrow> manager \<Rightarrow> event list \<times> manager" where
  "perform_stop e p s =
     (if p \<le> 0 then ([Print The_process_ID_must_be_a_positive_integer], s)
      else case find_pid p s of
        None \<Rightarrow> ([Print (Process_not_found p)], s)
      | Some i \<Rightarrow>
          if status (process_records s ! i) = RUNNING \<or> status (process_records s ! i) = READY
          then
            if \<not> cmd_kill_ok e
            then ([Kill p SIGSTOP, Print Kill_failed_in_perform_stop], s)
            else
              let s1 = set_status i STOPPED s
              in if int i = running_process_index s1
                 then
                   let s2 = (fold_elapsed (cmd_time e) i s1)\<lparr>running_process_index := -1\<rparr>;
                       (ev, s3) = scheduler e s2
                   in (Kill p SIGSTOP # ev, s3)
                 else ([Kill p SIGSTOP], s1)
          else ([Print (Process_is_not_running p)], s))"

definition perform_resume :: "env \<Rightarrow> int \<Rightarrow> manager \<Rightarrow> event list \<times> manager" where
  "perform_resume e p s =
     (if p \<le> 0 then ([Print The_process_ID_must_be_a_positive_integer], s)
      else case find_pid p s of
        None \<Rightarrow> ([Print (Process_not_found p)], s)
      | Some i \<Rightarrow>
          if status (process_records s ! i) = STOPPED
          then scheduler e (set_status i READY s)
          else ([Print (Process_was_not_in_STOPPED_status p)], s))"

definition perform_kill :: "env \<Rightarrow> int \<Rightarrow> manager \<Rightarrow> event list \<times> manager" where
  "perform_kill e p s =
     (if p \<le> 0 then ([Print The_process_ID_must_be_a_positive_integer], s)
      else case find_pid p s of
        None \<Rightarrow> ([Print (Process_not_found p)], s)
      | Some i \<Rightarrow>
          if status (process_records s ! i) \<noteq> TERMINATED
          then
            if \<not> cmd_kill_ok e
            then ([Kill p SIGTERM, Print Kill_failed_in_perform_kill], s)
            else
              let s1 = fold_elapsed (cmd_time e) i (set_status i TERMINATED s)
              in if int i = running_process_index s1
                 then
                   let (ev, s2) = scheduler e (s1\<lparr>running_process_index := -1\<rparr>)
                   in (Kill p SIGTERM # ev, s2)
                 else ([Kill p SIGTERM], s1)
          else ([Print (Process_is_already_terminated p)], s))"

text \<open>
  \<open>perform_exit\<close>: the loop carries the events so far and the table; \<open>exit_step\<close> is
  its body at index \<open>i\<close>.
\<close>

definition exit_step ::
  "env \<Rightarrow> nat \<Rightarrow> event list \<times> process_record list \<Rightarrow> event list \<times> process_record list" where
  "exit_step e i acc =
     (let ev = fst acc; rs = snd acc
      in if status (rs ! i) \<noteq> UNUSED \<and> status (rs ! i) \<noteq> TERMINATED
         then (ev @ [Kill (pid (rs ! i)) SIGTERM]
                  @ (if exit_kill_ok e i then [] else [Print Kill_failed_in_perform_exit]),
               rs[i := (rs ! i)\<lparr>status := TERMINATED\<rparr>])
         else acc)"

definition perform_exit :: "env \<Rightarrow> manager \<Rightarrow> event list \<times> manager" where
  "perform_exit e s =
     (let (ev, rs) = fold (exit_step e) [0..<MAX_PROCESSES] ([], process_records s)
      in (ev @ [Print Exiting_the_process_manager], s\<lparr>process_records := rs\<rparr>))"

section \<open>The SIGCHLD handler\<close>

text \<open>
  \<open>reap p current_time\<close> is the body of the handler's loop for one process id that
  \<open>waitpid\<close> returned; \<open>current_time\<close> is the clock reading of line 137.
  \<open>sigchld_handler\<close> takes the successive results of \<open>waitpid\<close>, each with the clock
  reading at that moment, and stops at the first that is not positive (the list's end
  stands for that too).
\<close>

definition reap :: "int \<Rightarrow> int \<Rightarrow> manager \<Rightarrow> manager" where
  "reap p current_time s =
     (case find_pid p s of
        None \<Rightarrow> s
      | Some i \<Rightarrow>
          let s1 = set_status i TERMINATED s
          in if int i = running_process_index s1
             then (fold_elapsed current_time i s1)\<lparr>running_process_index := -1\<rparr>
             else s1)"

fun sigchld_handler :: "(int \<times> int) list \<Rightarrow> manager \<Rightarrow> manager" where
  "sigchld_handler [] s = s"
| "sigchld_handler ((p, current_time) # ws) s =
     (if p > 0 then sigchld_handler ws (reap p current_time s) else s)"

section \<open>The main loop\<close>

text \<open>
  Lines 516 to 528: the periodic update of the running process, or the scheduler when
  nothing runs.
\<close>

definition main_tick :: "env \<Rightarrow> manager \<Rightarrow> event list \<times> manager" where
  "main_tick e s =
     (if 0 \<le> running_process_index s
      then ([], fold_elapsed (tick_time e) (nat (running_process_index s)) s)
      else scheduler e s)"

text \<open>
  One iteration of the manager's loop, lines 482 to 531, on the tokens of the record
  read from the pipe (\<open>None\<close> when nothing was read). The result is \<open>None\<close> where the
  C program dereferences \<open>NULL\<close> (an empty record, or \<open>stop\<close>, \<open>resume\<close>, \<open>kill\<close>
  with no argument); the flag says that the loop was left (\<open>break\<close>), after which
  \<open>main\<close> returns.
\<close>

definition main_iteration ::
  "env \<Rightarrow> string list option \<Rightarrow> manager \<Rightarrow> (event list \<times> manager \<times> bool) option" where
  "main_iteration e input s =
     (let tick = (\<lambda>(ev, s1). let (ev2, s2) = main_tick e s1 in Some (ev @ ev2, s2, False))
      in case input of
        None \<Rightarrow> tick ([], s)
      | Some args \<Rightarrow>
          (case arg args 0 of
             None \<Rightarrow> None
           | Some command \<Rightarrow>
               if command = ''run'' then tick (perform_run e (Some args) s)
               else if command = ''stop'' then
                 (case arg args 1 of None \<Rightarrow> None
                  | Some a \<Rightarrow> tick (perform_stop e (atoi a) s))
               else if command = ''resume'' then
                 (case arg args 1 of None \<Rightarrow> None
                  | Some a \<Rightarrow> tick (perform_resume e (atoi a) s))
               else if command = ''kill'' then
                 (case arg args 1 of None \<Rightarrow> None
                  | Some a \<Rightarrow> tick (perform_kill e (atoi a) s))
               else if command = ''list'' then tick (perform_list s)
               else if command = ''exit'' then
                 (let (ev, s1) = perform_exit e s in Some (ev, s1, True))
               else tick ([Print (Unknown_command command)], s)))"

section \<open>Notions used in the statements\<close>

subsection \<open>The invariant and the reachable states\<close>

text \<open>
  The two halves of the invariant of the process table: at most one slot is
  \<open>RUNNING\<close>; and \<open>running_process_index\<close>, when it is not negative, is the index of
  a \<open>RUNNING\<close> slot, while every \<open>RUNNING\<close> slot is the one it names.
\<close>

definition at_most_one_running :: "manager \<Rightarrow> bool" where
  "at_most_one_running s =
     (\<forall>i<MAX_PROCESSES. \<forall>j<MAX_PROCESSES.
        status (process_records s ! i) = RUNNING \<and> status (process_records s ! j) = RUNNING
        \<longrightarrow> i = j)"

definition running_index_consistent :: "manager \<Rightarrow> bool" where
  "running_index_consistent s =
     ((0 \<le> running_process_index s \<longrightarrow>
         running_process_index s < int MAX_PROCESSES \<and>
         status (process_records s ! nat (running_process_index s)) = RUNNING) \<and>
      (\<forall>i<MAX_PROCESSES. status (process_records s ! i) = RUNNING \<longrightarrow>
         running_process_index s = int i))"

text \<open>The form in which the invariant is carried through the operations.\<close>

definition table_inv :: "manager \<Rightarrow> bool" where
  "table_inv s =
     (length (process_records s) = MAX_PROCESSES \<and>
      - 1 \<le> running_process_index s \<and> running_process_index s < int MAX_PROCESSES \<and>
      (\<forall>i<MAX_PROCESSES.
         (status (process_records s ! i) = RUNNING) = (running_process_index s = int i)))"

text \<open>
  The process ids in the table: a slot never used holds 0, every other slot a positive
  id. \<open>same_used rs rs'\<close> says that two tables hold the same ids and have the same
  slots in use.
\<close>

definition pid_inv :: "manager \<Rightarrow> bool" where
  "pid_inv s =
     (\<forall>i<MAX_PROCESSES.
        if status (process_records s ! i) = UNUSED then pid (process_records s ! i) = 0
        else 0 < pid (process_records s ! i))"

definition same_used :: "process_record list \<Rightarrow> process_record list \<Rightarrow> bool" where
  "same_used rs rs' =
     (\<forall>i<MAX_PROCESSES. pid (rs' ! i) = pid (rs ! i) \<and>
        (status (rs' ! i) = UNUSED) = (status (rs ! i) = UNUSED))"

text \<open>
  The states the manager reaches before \<open>exit\<close>: from the initial state by the command
  handlers, scheduler passes, updates of the main loop and runs of the \<open>SIGCHLD\<close>
  handler, each taken as one step, with any arguments and any answers of the operating
  system.
\<close>

inductive reachable :: "manager \<Rightarrow> bool" where
  init: "reachable initial_state"
| run: "reachable s \<Longrightarrow> reachable (snd (perform_run e args s))"
| list: "reachable s \<Longrightarrow> reachable (snd (perform_list s))"
| stop: "reachable s \<Longrightarrow> reachable (snd (perform_stop e p s))"
| resume: "reachable s \<Longrightarrow> reachable (snd (perform_resume e p s))"
| kill: "reachable s \<Longrightarrow> reachable (snd (perform_kill e p s))"
| sched: "reachable s \<Longrightarrow> reachable (snd (scheduler e s))"
| tick: "reachable s \<Longrightarrow> reachable (snd (main_tick e s))"
| sigchld: "reachable s \<Longrightarrow> reachable (sigchld_handler ws s)"

subsection \<open>Selection\<close>

text \<open>
  \<open>min_ready rs n k\<close>: among the first \<open>n\<close> slots of \<open>rs\<close>, slot \<open>k\<close> is ready,
  its remaining runtime is below \<open>INT_MAX\<close>, at most that of every ready slot and
  strictly below that of every ready slot before it.
\<close>

definition min_ready :: "process_record list \<Rightarrow> nat \<Rightarrow> nat \<Rightarrow> bool" where
  "min_ready rs n k =
     (k < n \<and> status (rs ! k) = READY \<and> remaining_runtime (rs ! k) < INT_MAX \<and>
      (\<forall>j<n. status (rs ! j) = READY \<longrightarrow> remaining_runtime (rs ! k) \<le> remaining_runtime (rs ! j)) \<and>
      (\<forall>j<k. status (rs ! j) = READY \<longrightarrow> remaining_runtime (rs ! k) < remaining_runtime (rs ! j)))"

subsection \<open>Exit\<close>

text \<open>
  What \<open>perform_exit\<close> does at one slot: a slot is live when it is neither \<open>UNUSED\<close>
  nor \<open>TERMINATED\<close>; \<open>exit_events e rs i\<close> are the events of the loop body at index
  \<open>i\<close> of table \<open>rs\<close>, \<open>terminate\<close> is what becomes of the record.
\<close>

definition live :: "process_record \<Rightarrow> bool" where
  "live r = (status r \<noteq> UNUSED \<and> status r \<noteq> TERMINATED)"

definition exit_events :: "env \<Rightarrow> process_record list \<Rightarrow> nat \<Rightarrow> event list" where
  "exit_events e rs i =
     (if live (rs ! i)
      then Kill (pid (rs ! i)) SIGTERM #
             (if exit_kill_ok e i then [] else [Print Kill_failed_in_perform_exit])
      else [])"

definition terminate :: "process_record \<Rightarrow> process_record" where
  "terminate r = (if live r then r\<lparr>status := TERMINATED\<rparr> else r)"

subsection \<open>Concrete inputs\<close>

text \<open>
  Answers of the operating system: \<open>env_ok\<close>, where every call succeeds, \<open>fork\<close>
  gives process id 100 and every clock reading is 1000; and variants of it where the
  scheduler's \<open>SIGSTOP\<close> fails, where \<open>fork\<close> fails, where the \<open>SIGTERM\<close> of
  \<open>exit\<close> fails for slot 0, where \<open>fork\<close> gives process id 101, and where the
  handler runs 3 seconds and the main loop's update 4 seconds after the start.
\<close>

definition env_ok :: env where
  "env_ok = \<lparr>fork_ret = 100, cmd_kill_ok = True, cmd_time = 1000, exit_kill_ok = (\<lambda>i. True),
     sched_stop_ok = True, sched_fold_time = 1000, sched_cont_ok = True,
     sched_dispatch_time = 1000, tick_time = 1000\<rparr>"

definition env_stop_fails :: env where
  "env_stop_fails = env_ok\<lparr>sched_stop_ok := False\<rparr>"

definition env_fork_fails :: env where
  "env_fork_fails = env_ok\<lparr>fork_ret := -1\<rparr>"

definition env_exit_kill_fails :: env where
  "env_exit_kill_fails = env_ok\<lparr>exit_kill_ok := (\<lambda>i. i \<noteq> 0)\<rparr>"

definition env_second :: env where
  "env_second = env_ok\<lparr>fork_ret := 101\<rparr>"

definition env_later :: env where
  "env_later = env_ok\<lparr>cmd_time := 1003, tick_time := 1004\<rparr>"

text \<open>
  States: the record of a slot never used; the states after \<open>run ./w x 5\<close> and after
  \<open>run ./w x 2147483647\<close> on the initial state; the state after \<open>run ./w x 5\<close> and
  \<open>run ./v y 9\<close> (a running and a ready process) and the one after \<open>run ./w x 5\<close>
  and \<open>kill 100\<close> (one terminated process); tables with ready slots 0 to 3 of
  remaining runtimes 5, 2, 2 and 8, and with all 64 slots in the same status under
  distinct process ids.
\<close>

definition unused_record :: process_record where
  "unused_record = \<lparr>pid = 0, status = UNUSED, remaining_runtime = 0\<rparr>"

definition one_running :: manager where
  "one_running = snd (perform_run env_ok (Some [''run'', ''./w'', ''x'', ''5'']) initial_state)"

definition int_max_run :: manager where
  "int_max_run =
     snd (perform_run env_ok (Some [''run'', ''./w'', ''x'', ''2147483647'']) initial_state)"

definition two_processes :: manager where
  "two_processes = snd (perform_run env_second (Some [''run'', ''./v'', ''y'', ''9'']) one_running)"

definition one_terminated :: manager where
  "one_terminated = snd (perform_kill env_ok 100 one_running)"

definition sjf_example :: manager where
  "sjf_example =
     \<lparr>process_records = (replicate MAX_PROCESSES unused_record)
        [0 := \<lparr>pid = 100, status = READY, remaining_runtime = 5\<rparr>,
         1 := \<lparr>pid = 101, status = READY, remaining_runtime = 2\<rparr>,
         2 := \<lparr>pid = 102, status = READY, remaining_runtime = 2\<rparr>,
         3 := \<lparr>pid = 103, status = READY, remaining_runtime = 8\<rparr>],
      running_process_index = -1, start_time = 1000, elapsed_time = 0\<rparr>"

definition full_table :: "process_status \<Rightarrow> manager" where
  "full_table st =
     \<lparr>process_records =
        map (\<lambda>i. \<lparr>pid = 200 + int i, status = st, remaining_runtime = 10\<rparr>) [0..<MAX_PROCESSES],
      running_process_index = -1, start_time = 1000, elapsed_time = 0\<rparr>"

subsection \<open>A full table and a process id given out twice\<close>

text \<open>
  \<open>table_of f\<close> is the table whose slot \<open>i\<close> holds \<open>f i\<close>, and \<open>tbl f r\<close> the
  state with that table and running index \<open>r\<close> at clock reading 1000. \<open>worker i st\<close>
  is the record of the process with id \<open>1000 + i\<close> in status \<open>st\<close>; worker 0 has
  budget 1, the others budget 5. \<open>env_pid p\<close> is \<open>env_ok\<close> with \<open>fork\<close> giving
  process id \<open>p\<close>.
\<close>

definition table_of :: "(nat \<Rightarrow> process_record) \<Rightarrow> process_record list" where
  "table_of f = map f [0..<MAX_PROCESSES]"

definition tbl :: "(nat \<Rightarrow> process_record) \<Rightarrow> int \<Rightarrow> manager" where
  "tbl f r = \<lparr>process_records = table_of f, running_process_index = r,
              start_time = 1000, elapsed_time = 0\<rparr>"

definition worker :: "nat \<Rightarrow> process_status \<Rightarrow> process_record" where
  "worker i st = \<lparr>pid = 1000 + int i, status = st,
                  remaining_runtime = (if i = 0 then 1 else 5)\<rparr>"

definition env_pid :: "int \<Rightarrow> env" where
  "env_pid p = env_ok\<lparr>fork_ret := p\<rparr>"

text \<open>
  \<open>fill n\<close> is the state after the first \<open>n\<close> of the commands \<open>run ./w x 1\<close>,
  \<open>run ./w x 5\<close>, \<open>run ./w x 5\<close>, ... on the initial state, the processes getting
  the ids 1000, 1001, ... With all 64 slots taken, \<open>kill 1001\<close> and \<open>kill 1000\<close>
  terminate slots 1 and 0; the next \<open>run ./w x 1\<close> takes slot 0, and its process is
  given the id 1001 again, free since the first holder of it has ended.
\<close>

fun fill :: "nat \<Rightarrow> manager" where
  "fill 0 = initial_state"
| "fill (Suc n) =
     snd (perform_run (env_pid (1000 + int n))
            (Some [''run'', ''./w'', ''x'', if n = 0 then ''1'' else ''5'']) (fill n))"

text \<open>
  The tables of these states: \<open>filled_slot n\<close> after \<open>n\<close> runs, the next two after
  the two kills, \<open>reused_slot\<close> after the last run.
\<close>

definition filled_slot :: "nat \<Rightarrow> nat \<Rightarrow> process_record" where
  "filled_slot n i =
     (if i = 0 then worker 0 RUNNING else if i < n then worker i READY else unused_record)"

definition killed_one_slot :: "nat \<Rightarrow> process_record" where
  "killed_one_slot i =
     (if i = 0 then worker 0 RUNNING else if i = 1 then worker 1 TERMINATED else worker i READY)"

definition killed_two_slot :: "nat \<Rightarrow> process_record" where
  "killed_two_slot i =
     (if i < 2 then worker i TERMINATED else if i = 2 then worker 2 RUNNING else worker i READY)"

definition reused_slot :: "nat \<Rightarrow> process_record" where
  "reused_slot i =
     (if i = 0 then \<lparr>pid = 1001, status = RUNNING, remaining_runtime = 1\<rparr>
      else if i = 1 then worker 1 TERMINATED else worker i READY)"

definition reused_pid :: manager where
  "reused_pid =
     snd (perform_run (env_pid 1001) (Some [''run'', ''./w'', ''x'', ''1''])
       (snd (perform_kill env_ok 1000
         (snd (perform_kill env_ok 1001 (fill MAX_PROCESSES))))))"

section \<open>Auxiliary lemmas\<close>

subsection \<open>Searching an index range\<close>

lemma find_upt_Some:
  "i < n \<Longrightarrow> P i \<Longrightarrow> (\<forall>j<i. \<not> P j) \<Longrightarrow> find P [0..<n] = Some i"
  by (auto simp: find_Some_iff intro!: exI[of _ i])

lemma find_upt_None: "(\<forall>j<n. \<not> P j) \<Longrightarrow> find P [0..<n] = None"
  by (simp add: find_None_iff)

lemma find_upt_SomeD:
  "find P [0..<n] = Some i \<Longrightarrow> i < n \<and> P i \<and> (\<forall>j<i. \<not> P j)"
  by (auto simp: find_Some_iff)

lemma find_upt_NoneD: "find P [0..<n] = None \<Longrightarrow> j < n \<Longrightarrow> \<not> P j"
  by (auto simp: find_None_iff)

subsection \<open>Field updates\<close>

lemma set_status_fields [simp]:
  "running_process_index (set_status i st s) = running_process_index s"
  "start_time (set_status i st s) = start_time s"
  "elapsed_time (set_status i st s) = elapsed_time s"
  "length (process_records (set_status i st s)) = length (process_records s)"
  by (simp_all add: set_status_def)

lemma set_status_nth:
  "process_records (set_status i st s) ! j =
     (if j = i \<and> i < length (process_records s)
      then (process_records s ! i)\<lparr>status := st\<rparr> else process_records s ! j)"
  by (cases "i < length (process_records s)") (simp_all add: set_status_def nth_list_update list_update_beyond)

lemma set_status_status:
  "status (process_records (set_status i st s) ! j) =
     (if j = i \<and> i < length (process_records s) then st else status (process_records s ! j))"
  by (simp add: set_status_nth)

lemma set_status_pid [simp]:
  "pid (process_records (set_status i st s) ! j) = pid (process_records s ! j)"
  by (simp add: set_status_nth)

lemma set_status_remaining [simp]:
  "remaining_runtime (process_records (set_status i st s) ! j) =
     remaining_runtime (process_records s ! j)"
  by (simp add: set_status_nth)

lemma fold_elapsed_fields [simp]:
  "running_process_index (fold_elapsed t i s) = running_process_index s"
  "elapsed_time (fold_elapsed t i s) = t - start_time s"
  "length (process_records (fold_elapsed t i s)) = length (process_records s)"
  by (simp_all add: fold_elapsed_def Let_def)

lemma fold_elapsed_start_time:
  "start_time (fold_elapsed t i s) = (if start_time s < t then t else start_time s)"
  by (simp add: fold_elapsed_def Let_def)

lemma fold_elapsed_nth:
  "process_records (fold_elapsed t i s) ! j =
     (if j = i \<and> i < length (process_records s) \<and> start_time s < t
      then (process_records s ! i)
             \<lparr>remaining_runtime := to_int (remaining_runtime (process_records s ! i) - (t - start_time s))\<rparr>
      else process_records s ! j)"
  by (cases "i < length (process_records s)") (simp_all add: fold_elapsed_def Let_def nth_list_update list_update_beyond)

lemma fold_elapsed_status [simp]:
  "status (process_records (fold_elapsed t i s) ! j) = status (process_records s ! j)"
  by (simp add: fold_elapsed_nth)

lemma fold_elapsed_pid [simp]:
  "pid (process_records (fold_elapsed t i s) ! j) = pid (process_records s ! j)"
  by (simp add: fold_elapsed_nth)

subsection \<open>Looking up a slot\<close>

lemma get_unused_eq:
  "i < MAX_PROCESSES \<Longrightarrow> status (process_records s ! i) = UNUSED \<Longrightarrow>
   \<forall>j<i. status (process_records s ! j) \<noteq> UNUSED \<Longrightarrow>
   get_unused_process_index s = int i"
  by (simp add: get_unused_process_index_def find_upt_Some)

lemma get_unused_none:
  "\<forall>j<MAX_PROCESSES. status (process_records s ! j) \<noteq> UNUSED \<Longrightarrow>
   get_unused_process_index s = -1"
  by (simp add: get_unused_process_index_def find_upt_None)

lemma get_unused_D:
  "get_unused_process_index s = int i \<Longrightarrow>
   i < MAX_PROCESSES \<and> status (process_records s ! i) = UNUSED \<and>
   (\<forall>j<i. status (process_records s ! j) \<noteq> UNUSED)"
  by (auto simp: get_unused_process_index_def split: option.splits dest!: find_upt_SomeD)

lemma get_unused_negD:
  "get_unused_process_index s < 0 \<Longrightarrow> j < MAX_PROCESSES \<Longrightarrow>
   status (process_records s ! j) \<noteq> UNUSED"
  by (auto simp: get_unused_process_index_def split: option.splits dest: find_upt_NoneD)

lemma get_terminated_eq:
  "i < MAX_PROCESSES \<Longrightarrow> status (process_records s ! i) = TERMINATED \<Longrightarrow>
   \<forall>j<i. status (process_records s ! j) \<noteq> TERMINATED \<Longrightarrow>
   get_terminated_process_index s = int i"
  by (simp add: get_terminated_process_index_def find_upt_Some)

lemma get_terminated_none:
  "\<forall>j<MAX_PROCESSES. status (process_records s ! j) \<noteq> TERMINATED \<Longrightarrow>
   get_terminated_process_index s = -1"
  by (simp add: get_terminated_process_index_def find_upt_None)

lemma get_terminated_D:
  "get_terminated_process_index s = int i \<Longrightarrow>
   i < MAX_PROCESSES \<and> status (process_records s ! i) = TERMINATED \<and>
   (\<forall>j<i. status (process_records s ! j) \<noteq> TERMINATED)"
  by (auto simp: get_terminated_process_index_def split: option.splits dest!: find_upt_SomeD)

lemma get_terminated_negD:
  "get_terminated_process_index s < 0 \<Longrightarrow> j < MAX_PROCESSES \<Longrightarrow>
   status (process_records s ! j) \<noteq> TERMINATED"
  by (auto simp: get_terminated_process_index_def split: option.splits dest: find_upt_NoneD)

lemma run_index_unused:
  "i < MAX_PROCESSES \<Longrightarrow> status (process_records s ! i) = UNUSED \<Longrightarrow>
   \<forall>j<i. status (process_records s ! j) \<noteq> UNUSED \<Longrightarrow> run_index s = int i"
  by (simp add: run_index_def get_unused_eq)

lemma run_index_terminated:
  "\<forall>j<MAX_PROCESSES. status (process_records s ! j) \<noteq> UNUSED \<Longrightarrow>
   i < MAX_PROCESSES \<Longrightarrow> status (process_records s ! i) = TERMINATED \<Longrightarrow>
   \<forall>j<i. status (process_records s ! j) \<noteq> TERMINATED \<Longrightarrow> run_index s = int i"
  by (simp add: run_index_def get_unused_none get_terminated_eq)

lemma run_index_full:
  "\<forall>j<MAX_PROCESSES. status (process_records s ! j) \<noteq> UNUSED \<and>
       status (process_records s ! j) \<noteq> TERMINATED \<Longrightarrow> run_index s = -1"
  by (simp add: run_index_def get_unused_none get_terminated_none)

lemma run_index_D:
  assumes "run_index s = int i"
  shows "i < MAX_PROCESSES \<and>
     (status (process_records s ! i) = UNUSED \<or> status (process_records s ! i) = TERMINATED)"
proof (cases "get_unused_process_index s < 0")
  case True
  with assms have "get_terminated_process_index s = int i"
    by (simp add: run_index_def)
  then show ?thesis by (auto dest: get_terminated_D)
next
  case False
  with assms have "get_unused_process_index s = int i"
    by (simp add: run_index_def)
  then show ?thesis by (auto dest: get_unused_D)
qed

lemma run_index_negD:
  "run_index s < 0 \<Longrightarrow> j < MAX_PROCESSES \<Longrightarrow>
   status (process_records s ! j) \<noteq> UNUSED \<and> status (process_records s ! j) \<noteq> TERMINATED"
  by (auto simp: run_index_def Let_def split: if_splits
      dest: get_unused_negD get_terminated_negD)

lemma find_pid_eq:
  "i < MAX_PROCESSES \<Longrightarrow> pid (process_records s ! i) = p \<Longrightarrow>
   \<forall>j<i. pid (process_records s ! j) \<noteq> p \<Longrightarrow> find_pid p s = Some i"
  by (simp add: find_pid_def find_upt_Some)

lemma find_pid_D:
  "find_pid p s = Some i \<Longrightarrow>
   i < MAX_PROCESSES \<and> pid (process_records s ! i) = p \<and>
   (\<forall>j<i. pid (process_records s ! j) \<noteq> p)"
  by (auto simp: find_pid_def dest!: find_upt_SomeD)

subsection \<open>The selection loop\<close>

lemma find_min_loop_none:
  "\<forall>j<n. status (rs ! j) = READY \<longrightarrow> INT_MAX \<le> remaining_runtime (rs ! j) \<Longrightarrow>
   fold (find_min_step rs) [0..<n] (-1, INT_MAX) = (-1, INT_MAX)"
  by (induction n) (auto simp: find_min_step_def)

lemma find_min_loop_some:
  "\<exists>j<n. status (rs ! j) = READY \<and> remaining_runtime (rs ! j) < INT_MAX \<Longrightarrow>
   \<exists>k. min_ready rs n k \<and>
     fold (find_min_step rs) [0..<n] (-1, INT_MAX) = (int k, remaining_runtime (rs ! k))"
proof (induction n)
  case 0
  then show ?case by simp
next
  case (Suc n)
  show ?case
  proof (cases "\<exists>j<n. status (rs ! j) = READY \<and> remaining_runtime (rs ! j) < INT_MAX")
    case True
    then obtain k where k: "min_ready rs n k"
      and f: "fold (find_min_step rs) [0..<n] (-1, INT_MAX) = (int k, remaining_runtime (rs ! k))"
      using Suc.IH by blast
    show ?thesis
    proof (cases "status (rs ! n) = READY \<and> remaining_runtime (rs ! n) < remaining_runtime (rs ! k)")
      case True
      with k have "min_ready rs (Suc n) n"
        by (auto simp: min_ready_def less_Suc_eq)
      moreover have "fold (find_min_step rs) [0..<Suc n] (-1, INT_MAX) = (int n, remaining_runtime (rs ! n))"
        using True f by (simp add: find_min_step_def)
      ultimately show ?thesis by blast
    next
      case False
      with k have "min_ready rs (Suc n) k"
        by (auto simp: min_ready_def less_Suc_eq)
      moreover have "fold (find_min_step rs) [0..<Suc n] (-1, INT_MAX) = (int k, remaining_runtime (rs ! k))"
        using False f by (auto simp add: find_min_step_def)
      ultimately show ?thesis by blast
    qed
  next
    case False
    then have none: "fold (find_min_step rs) [0..<n] (-1, INT_MAX) = (-1, INT_MAX)"
      by (intro find_min_loop_none) (auto simp: not_less)
    from False Suc.prems have n: "status (rs ! n) = READY" "remaining_runtime (rs ! n) < INT_MAX"
      by (auto simp: less_Suc_eq)
    from False n have "min_ready rs (Suc n) n"
      by (auto simp: min_ready_def less_Suc_eq not_less)
    moreover have "fold (find_min_step rs) [0..<Suc n] (-1, INT_MAX) = (int n, remaining_runtime (rs ! n))"
      using none n by (simp add: find_min_step_def)
    ultimately show ?thesis by blast
  qed
qed

lemma min_ready_unique: "min_ready rs n k \<Longrightarrow> min_ready rs n k' \<Longrightarrow> k = k'"
  unfolding min_ready_def
  by (metis linorder_neqE_nat not_less)

lemma find_min_eq:
  assumes "min_ready (process_records s) MAX_PROCESSES k"
  shows "find_min_runtime_process s = int k"
proof -
  from assms have "\<exists>j<MAX_PROCESSES. status (process_records s ! j) = READY \<and>
      remaining_runtime (process_records s ! j) < INT_MAX"
    by (auto simp: min_ready_def)
  from find_min_loop_some [OF this] obtain k' where
    "min_ready (process_records s) MAX_PROCESSES k'"
    "find_min_runtime_process s = int k'"
    by (auto simp: find_min_runtime_process_def)
  with assms min_ready_unique show ?thesis by metis
qed

lemma find_min_none:
  "\<forall>j<MAX_PROCESSES. status (process_records s ! j) = READY \<longrightarrow>
       INT_MAX \<le> remaining_runtime (process_records s ! j) \<Longrightarrow>
   find_min_runtime_process s = -1"
  by (simp add: find_min_runtime_process_def find_min_loop_none)

lemma find_min_cases:
  "find_min_runtime_process s = -1 \<or>
   (\<exists>k. min_ready (process_records s) MAX_PROCESSES k \<and> find_min_runtime_process s = int k)"
proof (cases "\<exists>j<MAX_PROCESSES. status (process_records s ! j) = READY \<and>
      remaining_runtime (process_records s ! j) < INT_MAX")
  case True
  from find_min_loop_some [OF this] show ?thesis
    by (auto simp: find_min_runtime_process_def)
next
  case False
  then show ?thesis by (intro disjI1 find_min_none) (auto simp: not_less)
qed

subsection \<open>The scheduler, case by case\<close>

lemma dispatch_min_none:
  "find_min_runtime_process s = -1 \<Longrightarrow> dispatch_min e s = ([], s)"
  by (simp add: dispatch_min_def)

lemma dispatch_min_some:
  "find_min_runtime_process s = int k \<Longrightarrow>
   dispatch_min e s =
     (Kill (pid (process_records s ! k)) SIGCONT #
        (if sched_cont_ok e then [] else [Print Second_Kill_failed_in_scheduler]),
      if sched_cont_ok e
      then (set_status k RUNNING s)\<lparr>running_process_index := int k,
                                     start_time := sched_dispatch_time e\<rparr>
      else (set_status k RUNNING s)\<lparr>running_process_index := int k\<rparr>)"
  by (simp add: dispatch_min_def)

lemma dispatch_min_cases:
  "dispatch_min e s = ([], s) \<or>
   (\<exists>k. min_ready (process_records s) MAX_PROCESSES k \<and>
        find_min_runtime_process s = int k \<and>
        snd (dispatch_min e s) =
          (if sched_cont_ok e
           then (set_status k RUNNING s)\<lparr>running_process_index := int k,
                                          start_time := sched_dispatch_time e\<rparr>
           else (set_status k RUNNING s)\<lparr>running_process_index := int k\<rparr>))"
  using find_min_cases [of s]
  by (auto simp: dispatch_min_none dispatch_min_some)

lemma scheduler_idle:
  "running_process_index s < 0 \<Longrightarrow> scheduler e s = dispatch_min e s"
  by (simp add: scheduler_def)

lemma scheduler_stop_failed:
  "0 \<le> running_process_index s \<Longrightarrow> \<not> sched_stop_ok e \<Longrightarrow>
   scheduler e s =
     ([Kill (pid (process_records s ! nat (running_process_index s))) SIGSTOP,
       Print First_Kill_failed_in_scheduler], s)"
  by (simp add: scheduler_def)

lemma scheduler_preempt:
  "0 \<le> running_process_index s \<Longrightarrow> sched_stop_ok e \<Longrightarrow>
   scheduler e s =
     (Kill (pid (process_records s ! nat (running_process_index s))) SIGSTOP #
        fst (dispatch_min e
              ((set_status (nat (running_process_index s)) READY
                  (fold_elapsed (sched_fold_time e) (nat (running_process_index s)) s))
                 \<lparr>running_process_index := -1\<rparr>)),
      snd (dispatch_min e
              ((set_status (nat (running_process_index s)) READY
                  (fold_elapsed (sched_fold_time e) (nat (running_process_index s)) s))
                 \<lparr>running_process_index := -1\<rparr>)))"
  by (simp add: scheduler_def Let_def split: prod.splits)

lemma scheduler_cases:
  "scheduler e s = dispatch_min e s \<and> running_process_index s < 0 \<or>
   snd (scheduler e s) = s \<and> 0 \<le> running_process_index s \<and> \<not> sched_stop_ok e \<or>
   0 \<le> running_process_index s \<and> sched_stop_ok e \<and>
   snd (scheduler e s) =
     snd (dispatch_min e
            ((set_status (nat (running_process_index s)) READY
                (fold_elapsed (sched_fold_time e) (nat (running_process_index s)) s))
               \<lparr>running_process_index := -1\<rparr>))"
  by (cases "0 \<le> running_process_index s"; cases "sched_stop_ok e")
     (simp_all add: scheduler_idle scheduler_stop_failed scheduler_preempt)

subsection \<open>What the scheduler leaves alone\<close>

lemma dispatch_min_length [simp]:
  "length (process_records (snd (dispatch_min e s))) = length (process_records s)"
  using dispatch_min_cases [of e s] by auto

lemma dispatch_min_pid [simp]:
  "pid (process_records (snd (dispatch_min e s)) ! j) = pid (process_records s ! j)"
  using dispatch_min_cases [of e s] by auto

lemma dispatch_min_remaining [simp]:
  "remaining_runtime (process_records (snd (dispatch_min e s)) ! j) =
     remaining_runtime (process_records s ! j)"
  using dispatch_min_cases [of e s] by auto

lemma dispatch_min_active:
  "status (process_records s ! j) = READY \<or> status (process_records s ! j) = RUNNING \<Longrightarrow>
   status (process_records (snd (dispatch_min e s)) ! j) = READY \<or>
   status (process_records (snd (dispatch_min e s)) ! j) = RUNNING"
  using dispatch_min_cases [of e s] by (auto simp: set_status_status split: if_splits)

lemma scheduler_length [simp]:
  "length (process_records (snd (scheduler e s))) = length (process_records s)"
  using scheduler_cases [of e s] by auto

lemma scheduler_pid [simp]:
  "pid (process_records (snd (scheduler e s)) ! j) = pid (process_records s ! j)"
  using scheduler_cases [of e s] by auto

lemma scheduler_remaining:
  "running_process_index s < 0 \<or> j \<noteq> nat (running_process_index s) \<or>
     sched_fold_time e \<le> start_time s \<Longrightarrow>
   remaining_runtime (process_records (snd (scheduler e s)) ! j) =
     remaining_runtime (process_records s ! j)"
  using scheduler_cases [of e s] by (auto simp: fold_elapsed_nth)

lemma scheduler_active:
  assumes "status (process_records s ! j) = READY \<or> status (process_records s ! j) = RUNNING"
  shows "status (process_records (snd (scheduler e s)) ! j) = READY \<or>
         status (process_records (snd (scheduler e s)) ! j) = RUNNING"
proof -
  let ?s1 = "(set_status (nat (running_process_index s)) READY
                (fold_elapsed (sched_fold_time e) (nat (running_process_index s)) s))
               \<lparr>running_process_index := -1\<rparr>"
  consider (idle) "scheduler e s = dispatch_min e s"
    | (failed) "snd (scheduler e s) = s"
    | (preempt) "snd (scheduler e s) = snd (dispatch_min e ?s1)"
    using scheduler_cases [of e s] by blast
  then show ?thesis
  proof cases
    case idle
    with dispatch_min_active [OF assms] show ?thesis by simp
  next
    case failed
    with assms show ?thesis by simp
  next
    case preempt
    have "status (process_records ?s1 ! j) = READY \<or> status (process_records ?s1 ! j) = RUNNING"
      using assms by (simp add: set_status_status)
    from dispatch_min_active [OF this] preempt show ?thesis by simp
  qed
qed

subsection \<open>run, case by case\<close>

lemma perform_run_missing:
  "length args < 4 \<Longrightarrow>
   perform_run e (Some args) s = ([Print Invalid_arguments_for_perform_run], s)"
  by (auto simp: perform_run.simps arg_def)

lemma perform_run_bad_runtime:
  "4 \<le> length args \<Longrightarrow> atoi (args ! 3) \<le> 0 \<Longrightarrow>
   perform_run e (Some args) s = ([Print Invalid_remaining_runtime_for_perform_run], s)"
  by (auto simp: perform_run.simps arg_def)

lemma perform_run_full:
  "4 \<le> length args \<Longrightarrow> 0 < atoi (args ! 3) \<Longrightarrow> run_index s = -1 \<Longrightarrow>
   perform_run e (Some args) s = ([Print Maximum_number_of_processes_reached], s)"
  by (auto simp: perform_run.simps arg_def)

lemma perform_run_forks:
  "4 \<le> length args \<Longrightarrow> 0 < atoi (args ! 3) \<Longrightarrow> run_index s = int i \<Longrightarrow>
   hd (fst (perform_run e (Some args) s)) = Fork"
  by (simp add: perform_run.simps arg_def Let_def split: prod.splits)

lemma perform_run_idle:
  assumes "4 \<le> length args" "0 < atoi (args ! 3)" "run_index s = int i" "0 < fork_ret e"
    "running_process_index s < 0"
  shows "perform_run e (Some args) s =
     (Fork # fst (scheduler e
        ((set_status i RUNNING
           (s\<lparr>process_records := (process_records s)[i :=
                 \<lparr>pid = fork_ret e, status = READY, remaining_runtime = atoi (args ! 3)\<rparr>],
              start_time := cmd_time e\<rparr>))\<lparr>running_process_index := int i\<rparr>)),
      snd (scheduler e
        ((set_status i RUNNING
           (s\<lparr>process_records := (process_records s)[i :=
                 \<lparr>pid = fork_ret e, status = READY, remaining_runtime = atoi (args ! 3)\<rparr>],
              start_time := cmd_time e\<rparr>))\<lparr>running_process_index := int i\<rparr>)))"
  using assms by (simp add: arg_def Let_def split: prod.splits)

lemma perform_run_busy:
  assumes "4 \<le> length args" "0 < atoi (args ! 3)" "run_index s = int i" "0 < fork_ret e"
    "0 \<le> running_process_index s"
  shows "perform_run e (Some args) s =
     (if cmd_kill_ok e
      then (Fork # Kill (fork_ret e) SIGSTOP # fst (scheduler e
              (s\<lparr>process_records := (process_records s)[i :=
                 \<lparr>pid = fork_ret e, status = READY, remaining_runtime = atoi (args ! 3)\<rparr>]\<rparr>)),
            snd (scheduler e
              (s\<lparr>process_records := (process_records s)[i :=
                 \<lparr>pid = fork_ret e, status = READY, remaining_runtime = atoi (args ! 3)\<rparr>]\<rparr>)))
      else ([Fork, Kill (fork_ret e) SIGSTOP, Print Kill_failed_in_perform_run],
            s\<lparr>process_records := (process_records s)[i :=
                 \<lparr>pid = fork_ret e, status = READY, remaining_runtime = atoi (args ! 3)\<rparr>]\<rparr>))"
  using assms by (simp add: arg_def Let_def split: prod.splits)

declare perform_run.simps [simp del]

lemma perform_run_stores:
  assumes "4 \<le> length args" "0 < atoi (args ! 3)" "run_index s = int i" "0 < fork_ret e"
    and "length (process_records s) = MAX_PROCESSES"
  shows "pid (process_records (snd (perform_run e (Some args) s)) ! i) = fork_ret e"
    and "status (process_records (snd (perform_run e (Some args) s)) ! i) = READY \<or>
         status (process_records (snd (perform_run e (Some args) s)) ! i) = RUNNING"
    and "running_process_index s \<noteq> int i \<Longrightarrow>
         running_process_index s < 0 \<longrightarrow> sched_fold_time e \<le> cmd_time e \<Longrightarrow>
         remaining_runtime (process_records (snd (perform_run e (Some args) s)) ! i) =
           atoi (args ! 3)"
proof -
  from run_index_D [OF assms(3)] assms(5) have i: "i < length (process_records s)"
    by simp
  show "pid (process_records (snd (perform_run e (Some args) s)) ! i) = fork_ret e"
    using assms i
    by (cases "running_process_index s < 0")
       (simp_all add: perform_run_idle perform_run_busy set_status_def)
  show "status (process_records (snd (perform_run e (Some args) s)) ! i) = READY \<or>
         status (process_records (snd (perform_run e (Some args) s)) ! i) = RUNNING"
    using assms i
    by (cases "running_process_index s < 0")
       (auto simp: perform_run_idle perform_run_busy set_status_status intro!: scheduler_active)
  show "remaining_runtime (process_records (snd (perform_run e (Some args) s)) ! i) =
           atoi (args ! 3)"
    if "running_process_index s \<noteq> int i"
      "running_process_index s < 0 \<longrightarrow> sched_fold_time e \<le> cmd_time e"
  proof (cases "running_process_index s < 0")
    case True
    with assms i that show ?thesis
      by (simp add: perform_run_idle scheduler_remaining)
  next
    case False
    let ?s1 = "s\<lparr>process_records := (process_records s)[i :=
                 \<lparr>pid = fork_ret e, status = READY, remaining_runtime = atoi (args ! 3)\<rparr>]\<rparr>"
    from False that have "i \<noteq> nat (running_process_index ?s1)"
      by auto
    then have "remaining_runtime (process_records (snd (scheduler e ?s1)) ! i) =
        remaining_runtime (process_records ?s1 ! i)"
      by (intro scheduler_remaining) simp
    with assms i False show ?thesis
      by (simp add: perform_run_busy)
  qed
qed

subsection \<open>kill, case by case\<close>

lemma perform_kill_terminated:
  "0 < p \<Longrightarrow> find_pid p s = Some i \<Longrightarrow> status (process_records s ! i) = TERMINATED \<Longrightarrow>
   perform_kill e p s = ([Print (Process_is_already_terminated p)], s)"
  by (simp add: perform_kill_def)

lemma perform_kill_failed:
  "0 < p \<Longrightarrow> find_pid p s = Some i \<Longrightarrow> status (process_records s ! i) \<noteq> TERMINATED \<Longrightarrow>
   \<not> cmd_kill_ok e \<Longrightarrow>
   perform_kill e p s = ([Kill p SIGTERM, Print Kill_failed_in_perform_kill], s)"
  by (simp add: perform_kill_def)

lemma perform_kill_other:
  "0 < p \<Longrightarrow> find_pid p s = Some i \<Longrightarrow> status (process_records s ! i) \<noteq> TERMINATED \<Longrightarrow>
   cmd_kill_ok e \<Longrightarrow> running_process_index s \<noteq> int i \<Longrightarrow>
   perform_kill e p s =
     ([Kill p SIGTERM], fold_elapsed (cmd_time e) i (set_status i TERMINATED s))"
  by (auto simp: perform_kill_def Let_def)

lemma perform_kill_running:
  "0 < p \<Longrightarrow> find_pid p s = Some i \<Longrightarrow> status (process_records s ! i) \<noteq> TERMINATED \<Longrightarrow>
   cmd_kill_ok e \<Longrightarrow> running_process_index s = int i \<Longrightarrow>
   perform_kill e p s =
     (Kill p SIGTERM #
        fst (scheduler e ((fold_elapsed (cmd_time e) i (set_status i TERMINATED s))
                            \<lparr>running_process_index := -1\<rparr>)),
      snd (scheduler e ((fold_elapsed (cmd_time e) i (set_status i TERMINATED s))
                            \<lparr>running_process_index := -1\<rparr>)))"
  by (simp add: perform_kill_def Let_def split: prod.splits)

subsection \<open>The loop of exit\<close>

lemma exit_step_eq:
  "exit_step e n (ev, rs) =
     (ev @ exit_events e rs n, rs[n := terminate (rs ! n)])"
  by (simp add: exit_step_def exit_events_def terminate_def live_def)

lemma exit_loop:
  "n \<le> length rs \<Longrightarrow>
   fold (exit_step e) [0..<n] (ev, rs) =
     (ev @ concat (map (exit_events e rs) [0..<n]), map terminate (take n rs) @ drop n rs)"
proof (induction n)
  case 0
  then show ?case by simp
next
  case (Suc n)
  then have n: "n < length rs" by simp
  then have d: "drop n rs = rs ! n # drop (Suc n) rs"
    by (simp add: Cons_nth_drop_Suc)
  let ?rs = "map terminate (take n rs) @ drop n rs"
  have nth: "?rs ! n = rs ! n"
    using n by (simp add: nth_append)
  have ev: "exit_events e ?rs n = exit_events e rs n"
    by (simp add: exit_events_def nth)
  have "fold (exit_step e) [0..<Suc n] (ev, rs) =
      exit_step e n (ev @ concat (map (exit_events e rs) [0..<n]), ?rs)"
    using Suc by simp
  also have "\<dots> = (ev @ concat (map (exit_events e rs) [0..<n]) @ exit_events e rs n,
      ?rs[n := terminate (rs ! n)])"
    by (simp add: exit_step_eq ev nth)
  also have "?rs[n := terminate (rs ! n)] =
      map terminate (take n rs) @ terminate (rs ! n) # drop (Suc n) rs"
    using n by (simp add: list_update_append d)
  also have "\<dots> = map terminate (take (Suc n) rs) @ drop (Suc n) rs"
    using n by (simp add: take_Suc_conv_app_nth)
  finally show ?case by simp
qed

lemma perform_exit_eq:
  "length (process_records s) = MAX_PROCESSES \<Longrightarrow>
   perform_exit e s =
     (concat (map (exit_events e (process_records s)) [0..<MAX_PROCESSES])
        @ [Print Exiting_the_process_manager],
      s\<lparr>process_records := map terminate (process_records s)\<rparr>)"
  by (simp add: perform_exit_def exit_loop)

lemma perform_exit_status:
  "length (process_records s) = MAX_PROCESSES \<Longrightarrow> i < MAX_PROCESSES \<Longrightarrow>
   status (process_records (snd (perform_exit e s)) ! i) =
     (if live (process_records s ! i) then TERMINATED else status (process_records s ! i))"
  by (simp add: perform_exit_eq terminate_def)

lemma perform_exit_running_index:
  "length (process_records s) = MAX_PROCESSES \<Longrightarrow>
   running_process_index (snd (perform_exit e s)) = running_process_index s"
  by (simp add: perform_exit_eq)

subsection \<open>The initial state\<close>

lemma fold_update_upt:
  "n \<le> length rs \<Longrightarrow>
   fold (\<lambda>i rs. rs[i := f (rs ! i)]) [0..<n] rs = map f (take n rs) @ drop n rs"
proof (induction n)
  case 0
  then show ?case by simp
next
  case (Suc n)
  then have n: "n < length rs" by simp
  then have d: "drop n rs = rs ! n # drop (Suc n) rs"
    by (simp add: Cons_nth_drop_Suc)
  have "fold (\<lambda>i rs. rs[i := f (rs ! i)]) [0..<Suc n] rs =
        (map f (take n rs) @ drop n rs)[n := f ((map f (take n rs) @ drop n rs) ! n)]"
    using Suc by simp
  also have "\<dots> = map f (take n rs) @ f (rs ! n) # drop (Suc n) rs"
    using n by (simp add: list_update_append nth_append d)
  also have "\<dots> = map f (take (Suc n) rs) @ drop (Suc n) rs"
    using n by (simp add: take_Suc_conv_app_nth)
  finally show ?case .
qed

lemma initial_state_eq:
  "initial_state = \<lparr>process_records = replicate MAX_PROCESSES unused_record,
      running_process_index = -1, start_time = 0, elapsed_time = 0\<rparr>"
  by (simp add: initial_state_def initialise_process_records_def static_storage_def
      fold_update_upt zero_record_def unused_record_def)

lemma initial_state_fields:
  "running_process_index initial_state = -1"
  "process_records initial_state = replicate MAX_PROCESSES unused_record"
  "length (process_records initial_state) = MAX_PROCESSES"
  by (simp_all add: initial_state_eq)

lemma run_index_initial: "run_index initial_state = 0"
  by (simp add: run_index_def get_unused_process_index_def initial_state_eq
      find_upt_Some [of 0] MAX_PROCESSES_def unused_record_def)

subsection \<open>The invariant of the table\<close>

lemma table_inv_cong:
  "length (process_records s') = length (process_records s) \<Longrightarrow>
   \<forall>i<MAX_PROCESSES. status (process_records s' ! i) = status (process_records s ! i) \<Longrightarrow>
   running_process_index s' = running_process_index s \<Longrightarrow>
   table_inv s' = table_inv s"
  by (simp add: table_inv_def)

lemma table_inv_fold_elapsed [simp]: "table_inv (fold_elapsed t i s) = table_inv s"
  by (rule table_inv_cong) simp_all

lemma table_inv_start_time [simp]: "table_inv (s\<lparr>start_time := t\<rparr>) = table_inv s"
  by (rule table_inv_cong) simp_all

lemma table_inv_initial: "table_inv initial_state"
  by (simp add: table_inv_def initial_state_eq unused_record_def MAX_PROCESSES_def)

lemma table_inv_other:
  "table_inv s \<Longrightarrow> running_process_index s \<noteq> int i \<Longrightarrow> st \<noteq> RUNNING \<Longrightarrow>
   table_inv (set_status i st s)"
  by (auto simp: table_inv_def set_status_status)

lemma table_inv_clear:
  "table_inv s \<Longrightarrow> running_process_index s = int i \<Longrightarrow> st \<noteq> RUNNING \<Longrightarrow>
   table_inv ((fold_elapsed t i (set_status i st s))\<lparr>running_process_index := -1\<rparr>)"
  by (auto simp: table_inv_def set_status_status)

lemma table_inv_clear':
  "table_inv s \<Longrightarrow> running_process_index s = int i \<Longrightarrow> st \<noteq> RUNNING \<Longrightarrow>
   table_inv ((set_status i st (fold_elapsed t i s))\<lparr>running_process_index := -1\<rparr>)"
  by (auto simp: table_inv_def set_status_status)

lemma table_inv_start:
  "table_inv s \<Longrightarrow> running_process_index s = -1 \<Longrightarrow> i < MAX_PROCESSES \<Longrightarrow>
   table_inv ((set_status i RUNNING s)\<lparr>running_process_index := int i\<rparr>)"
  by (auto simp: table_inv_def set_status_status)

lemma table_inv_idle: "table_inv s \<Longrightarrow> running_process_index s < 0 \<Longrightarrow> running_process_index s = -1"
  by (simp add: table_inv_def)

lemma table_inv_dispatch_min:
  assumes "table_inv s" "running_process_index s = -1"
  shows "table_inv (snd (dispatch_min e s))"
  using dispatch_min_cases [of e s]
proof (elim disjE exE conjE)
  assume "dispatch_min e s = ([], s)"
  with assms show ?thesis by simp
next
  fix k
  assume k: "min_ready (process_records s) MAX_PROCESSES k"
    and d: "snd (dispatch_min e s) =
          (if sched_cont_ok e
           then (set_status k RUNNING s)\<lparr>running_process_index := int k,
                                          start_time := sched_dispatch_time e\<rparr>
           else (set_status k RUNNING s)\<lparr>running_process_index := int k\<rparr>)"
  from k have "k < MAX_PROCESSES" by (simp add: min_ready_def)
  from table_inv_start [OF assms this] d show ?thesis
    by (auto simp: table_inv_def)
qed

lemma table_inv_scheduler:
  assumes "table_inv s"
  shows "table_inv (snd (scheduler e s))"
proof -
  let ?r = "nat (running_process_index s)"
  let ?s1 = "(set_status ?r READY (fold_elapsed (sched_fold_time e) ?r s))
               \<lparr>running_process_index := -1\<rparr>"
  consider (idle) "scheduler e s = dispatch_min e s" "running_process_index s < 0"
    | (failed) "snd (scheduler e s) = s"
    | (preempt) "0 \<le> running_process_index s" "snd (scheduler e s) = snd (dispatch_min e ?s1)"
    using scheduler_cases [of e s] by blast
  then show ?thesis
  proof cases
    case idle
    with assms table_inv_dispatch_min [OF assms table_inv_idle] show ?thesis by simp
  next
    case failed
    with assms show ?thesis by simp
  next
    case preempt
    then have "running_process_index s = int ?r" by simp
    from table_inv_clear' [OF assms this, of READY] have "table_inv ?s1" by simp
    from table_inv_dispatch_min [OF this] preempt show ?thesis by simp
  qed
qed

lemma table_inv_stored:
  assumes "table_inv s" "run_index s = int i" "st \<noteq> RUNNING"
  shows "table_inv (s\<lparr>process_records := (process_records s)
           [i := \<lparr>pid = p, status = st, remaining_runtime = b\<rparr>]\<rparr>)"
    and "running_process_index s \<noteq> int i"
proof -
  from run_index_D [OF assms(2)] have i: "i < MAX_PROCESSES"
    "status (process_records s ! i) \<noteq> RUNNING" by auto
  with assms(1) show "running_process_index s \<noteq> int i"
    by (auto simp: table_inv_def)
  with assms i show "table_inv (s\<lparr>process_records := (process_records s)
           [i := \<lparr>pid = p, status = st, remaining_runtime = b\<rparr>]\<rparr>)"
    by (auto simp: table_inv_def nth_list_update)
qed

lemma table_inv_perform_run:
  assumes "table_inv s"
  shows "table_inv (snd (perform_run e args s))"
proof (cases args)
  case None
  with assms show ?thesis by (simp add: perform_run.simps)
next
  case (Some a)
  show ?thesis
  proof (cases "4 \<le> length a \<and> 0 < atoi (a ! 3) \<and> 0 \<le> run_index s \<and> 0 < fork_ret e")
    case False
    with assms Some show ?thesis
      by (auto simp: perform_run.simps arg_def Let_def)
  next
    case True
    then have ri: "run_index s = int (nat (run_index s))" by simp
    let ?i = "nat (run_index s)"
    let ?s1 = "s\<lparr>process_records := (process_records s)[?i :=
                 \<lparr>pid = fork_ret e, status = READY, remaining_runtime = atoi (a ! 3)\<rparr>]\<rparr>"
    have inv1: "table_inv ?s1"
      by (rule table_inv_stored(1) [OF assms ri]) simp
    from run_index_D [OF ri] have i: "?i < MAX_PROCESSES" by simp
    show ?thesis
    proof (cases "running_process_index s < 0")
      case idle: True
      let ?s2 = "(set_status ?i RUNNING (?s1\<lparr>start_time := cmd_time e\<rparr>))
                   \<lparr>running_process_index := int ?i\<rparr>"
      from idle assms have "running_process_index (?s1\<lparr>start_time := cmd_time e\<rparr>) = -1"
        by (simp add: table_inv_def)
      moreover from inv1 have "table_inv (?s1\<lparr>start_time := cmd_time e\<rparr>)" by simp
      ultimately have "table_inv ?s2"
        using i by (intro table_inv_start)
      then have "table_inv (snd (scheduler e ?s2))"
        by (rule table_inv_scheduler)
      moreover have "snd (perform_run e (Some a) s) = snd (scheduler e ?s2)"
        using True idle by (subst perform_run_idle [OF _ _ ri]) simp_all
      ultimately show ?thesis using Some by simp
    next
      case busy: False
      have "snd (perform_run e (Some a) s) =
          (if cmd_kill_ok e then snd (scheduler e ?s1) else ?s1)"
        using True busy by (subst perform_run_busy [OF _ _ ri]) simp_all
      with inv1 table_inv_scheduler [OF inv1, of e] Some show ?thesis by simp
    qed
  qed
qed

lemma table_inv_perform_stop:
  assumes "table_inv s"
  shows "table_inv (snd (perform_stop e p s))"
proof (cases "find_pid p s")
  case None
  with assms show ?thesis by (simp add: perform_stop_def)
next
  case (Some i)
  then have i: "i < MAX_PROCESSES" by (auto dest: find_pid_D)
  show ?thesis
  proof (cases "running_process_index s = int i")
    case True
    from table_inv_scheduler [OF table_inv_clear [OF assms True, of STOPPED]] assms Some True
    show ?thesis
      by (simp add: perform_stop_def Let_def case_prod_beta)
  next
    case False
    from table_inv_other [OF assms False, of STOPPED] assms Some False
    show ?thesis
      by (simp add: perform_stop_def Let_def)
  qed
qed

lemma table_inv_perform_resume:
  assumes "table_inv s"
  shows "table_inv (snd (perform_resume e p s))"
proof (cases "find_pid p s")
  case None
  with assms show ?thesis by (simp add: perform_resume_def)
next
  case (Some i)
  show ?thesis
  proof (cases "status (process_records s ! i) = STOPPED \<and> 0 < p")
    case False
    with assms Some show ?thesis by (auto simp: perform_resume_def)
  next
    case True
    from Some have "i < MAX_PROCESSES" by (auto dest: find_pid_D)
    with True assms have "running_process_index s \<noteq> int i"
      by (auto simp: table_inv_def)
    from table_inv_scheduler [OF table_inv_other [OF assms this, of READY]] Some True
    show ?thesis by (simp add: perform_resume_def)
  qed
qed

lemma table_inv_perform_kill:
  assumes "table_inv s"
  shows "table_inv (snd (perform_kill e p s))"
proof (cases "find_pid p s")
  case None
  with assms show ?thesis by (simp add: perform_kill_def)
next
  case (Some i)
  show ?thesis
  proof (cases "running_process_index s = int i")
    case True
    from table_inv_scheduler [OF table_inv_clear [OF assms True, of TERMINATED]] assms Some True
    show ?thesis
      by (simp add: perform_kill_def Let_def case_prod_beta)
  next
    case False
    from table_inv_other [OF assms False, of TERMINATED] assms Some False
    show ?thesis
      by (simp add: perform_kill_def Let_def)
  qed
qed

lemma table_inv_reap:
  assumes "table_inv s"
  shows "table_inv (reap p t s)"
proof (cases "find_pid p s")
  case None
  with assms show ?thesis by (simp add: reap_def)
next
  case (Some i)
  show ?thesis
  proof (cases "running_process_index s = int i")
    case True
    from table_inv_clear [OF assms True, of TERMINATED] Some True
    show ?thesis by (simp add: reap_def Let_def)
  next
    case False
    from table_inv_other [OF assms False, of TERMINATED] Some False
    show ?thesis by (simp add: reap_def Let_def)
  qed
qed

lemma table_inv_sigchld_handler:
  "table_inv s \<Longrightarrow> table_inv (sigchld_handler ws s)"
  by (induction ws s rule: sigchld_handler.induct) (simp_all add: table_inv_reap)

lemma table_inv_main_tick: "table_inv s \<Longrightarrow> table_inv (snd (main_tick e s))"
  by (simp add: main_tick_def table_inv_scheduler)

lemma reachable_table_inv: "reachable s \<Longrightarrow> table_inv s"
proof (induction rule: reachable.induct)
  case init
  show ?case by (rule table_inv_initial)
next
  case (list s)
  then show ?case by (simp add: perform_list_def Let_def)
qed (simp_all add: table_inv_perform_run table_inv_perform_stop table_inv_perform_resume
      table_inv_perform_kill table_inv_scheduler table_inv_main_tick table_inv_sigchld_handler)

lemma table_inv_running:
  assumes "table_inv s"
  shows "at_most_one_running s" and "running_index_consistent s"
proof -
  from assms show "at_most_one_running s"
    by (auto simp: table_inv_def at_most_one_running_def)
  from assms have "nat (running_process_index s) < MAX_PROCESSES" if "0 \<le> running_process_index s"
    using that by (simp add: table_inv_def nat_less_iff)
  with assms show "running_index_consistent s"
    by (auto simp: table_inv_def running_index_consistent_def)
qed

lemma perform_exit_no_running:
  "length (process_records s) = MAX_PROCESSES \<Longrightarrow> i < MAX_PROCESSES \<Longrightarrow>
   table_inv s \<Longrightarrow>
   status (process_records (snd (perform_exit e s)) ! i) \<noteq> RUNNING"
  by (auto simp: perform_exit_status live_def)

subsection \<open>The process ids of the table\<close>

lemma pid_inv_same_used:
  "pid_inv s \<Longrightarrow> same_used (process_records s) (process_records s') \<Longrightarrow> pid_inv s'"
  by (simp add: pid_inv_def same_used_def)

lemma same_used_refl [simp]: "same_used rs rs"
  by (simp add: same_used_def)

lemma same_used_trans: "same_used rs rs' \<Longrightarrow> same_used rs' rs'' \<Longrightarrow> same_used rs rs''"
  by (simp add: same_used_def)

lemma same_used_set_status:
  "i < length (process_records s) \<longrightarrow> status (process_records s ! i) \<noteq> UNUSED \<Longrightarrow>
   st \<noteq> UNUSED \<Longrightarrow>
   same_used (process_records s) (process_records (set_status i st s))"
  by (auto simp: same_used_def set_status_status)

lemma same_used_fold_elapsed [simp]:
  "same_used (process_records s) (process_records (fold_elapsed t i s))"
  by (simp add: same_used_def)

lemma same_used_dispatch_min:
  "same_used (process_records s) (process_records (snd (dispatch_min e s)))"
  using dispatch_min_cases [of e s]
proof (elim disjE exE conjE)
  assume "dispatch_min e s = ([], s)"
  then show ?thesis by simp
next
  fix k
  assume k: "min_ready (process_records s) MAX_PROCESSES k"
    and d: "snd (dispatch_min e s) =
          (if sched_cont_ok e
           then (set_status k RUNNING s)\<lparr>running_process_index := int k,
                                          start_time := sched_dispatch_time e\<rparr>
           else (set_status k RUNNING s)\<lparr>running_process_index := int k\<rparr>)"
  from k have "status (process_records s ! k) \<noteq> UNUSED"
    by (simp add: min_ready_def)
  then have "same_used (process_records s) (process_records (set_status k RUNNING s))"
    by (intro same_used_set_status) simp_all
  with d show ?thesis by simp
qed

lemma same_used_scheduler:
  assumes "table_inv s"
  shows "same_used (process_records s) (process_records (snd (scheduler e s)))"
proof -
  let ?r = "nat (running_process_index s)"
  let ?s1 = "(set_status ?r READY (fold_elapsed (sched_fold_time e) ?r s))
               \<lparr>running_process_index := -1\<rparr>"
  consider (idle) "scheduler e s = dispatch_min e s"
    | (failed) "snd (scheduler e s) = s"
    | (preempt) "0 \<le> running_process_index s" "snd (scheduler e s) = snd (dispatch_min e ?s1)"
    using scheduler_cases [of e s] by blast
  then show ?thesis
  proof cases
    case idle
    then show ?thesis by (simp add: same_used_dispatch_min)
  next
    case failed
    then show ?thesis by simp
  next
    case preempt
    with assms have "?r < MAX_PROCESSES" "running_process_index s = int ?r"
      by (simp_all add: table_inv_def nat_less_iff)
    with assms have "status (process_records s ! ?r) = RUNNING"
      by (simp add: table_inv_def)
    then have "same_used (process_records (fold_elapsed (sched_fold_time e) ?r s))
        (process_records (set_status ?r READY (fold_elapsed (sched_fold_time e) ?r s)))"
      by (intro same_used_set_status) simp_all
    then have "same_used (process_records s) (process_records ?s1)"
      using same_used_trans [OF same_used_fold_elapsed] by simp
    from same_used_trans [OF this same_used_dispatch_min [of ?s1 e]] preempt
    show ?thesis by simp
  qed
qed

lemma pid_inv_scheduler:
  "table_inv s \<Longrightarrow> pid_inv s \<Longrightarrow> pid_inv (snd (scheduler e s))"
  by (rule pid_inv_same_used [OF _ same_used_scheduler])

lemma pid_inv_fields [simp]:
  "pid_inv (s\<lparr>running_process_index := x\<rparr>) = pid_inv s"
  "pid_inv (s\<lparr>start_time := t\<rparr>) = pid_inv s"
  "pid_inv (fold_elapsed t i s) = pid_inv s"
  by (simp_all add: pid_inv_def)

lemma pid_inv_set_status:
  "pid_inv s \<Longrightarrow>
   i < length (process_records s) \<longrightarrow> status (process_records s ! i) \<noteq> UNUSED \<Longrightarrow>
   st \<noteq> UNUSED \<Longrightarrow> pid_inv (set_status i st s)"
  by (rule pid_inv_same_used [OF _ same_used_set_status])

lemma pid_inv_found:
  "pid_inv s \<Longrightarrow> find_pid p s = Some i \<Longrightarrow> 0 < p \<Longrightarrow>
   status (process_records s ! i) \<noteq> UNUSED"
  by (auto simp: pid_inv_def dest!: find_pid_D split: if_splits)

lemma pid_inv_initial: "pid_inv initial_state"
  by (simp add: pid_inv_def initial_state_fields unused_record_def)

lemma pid_inv_perform_stop:
  assumes "table_inv s" "pid_inv s"
  shows "pid_inv (snd (perform_stop e p s))"
proof (cases "find_pid p s")
  case None
  with assms show ?thesis by (simp add: perform_stop_def)
next
  case (Some i)
  show ?thesis
  proof (cases "0 < p \<and> cmd_kill_ok e \<and>
      (status (process_records s ! i) = RUNNING \<or> status (process_records s ! i) = READY)")
    case False
    with assms Some show ?thesis by (auto simp: perform_stop_def)
  next
    case True
    then have st: "pid_inv (set_status i STOPPED s)"
      using assms by (intro pid_inv_set_status) auto
    show ?thesis
    proof (cases "running_process_index s = int i")
      case ri: True
      from pid_inv_scheduler [OF table_inv_clear [OF assms(1) ri, of STOPPED]] st Some True ri
      show ?thesis
        by (auto simp: perform_stop_def Let_def case_prod_beta)
    next
      case False
      with st Some True show ?thesis
        by (auto simp: perform_stop_def Let_def)
    qed
  qed
qed

lemma pid_inv_perform_resume:
  assumes "table_inv s" "pid_inv s"
  shows "pid_inv (snd (perform_resume e p s))"
proof (cases "find_pid p s")
  case None
  with assms show ?thesis by (simp add: perform_resume_def)
next
  case (Some i)
  show ?thesis
  proof (cases "status (process_records s ! i) = STOPPED \<and> 0 < p")
    case False
    with assms Some show ?thesis by (auto simp: perform_resume_def)
  next
    case True
    from Some have "i < MAX_PROCESSES" by (auto dest: find_pid_D)
    with True assms have "running_process_index s \<noteq> int i"
      by (auto simp: table_inv_def)
    from table_inv_other [OF assms(1) this, of READY]
    have "table_inv (set_status i READY s)" by simp
    moreover from True assms have "pid_inv (set_status i READY s)"
      by (intro pid_inv_set_status) auto
    ultimately show ?thesis
      using Some True by (simp add: perform_resume_def pid_inv_scheduler)
  qed
qed

lemma pid_inv_perform_kill:
  assumes "table_inv s" "pid_inv s"
  shows "pid_inv (snd (perform_kill e p s))"
proof (cases "find_pid p s")
  case None
  with assms show ?thesis by (simp add: perform_kill_def)
next
  case (Some i)
  show ?thesis
  proof (cases "0 < p \<and> cmd_kill_ok e \<and> status (process_records s ! i) \<noteq> TERMINATED")
    case False
    with assms Some show ?thesis by (auto simp: perform_kill_def)
  next
    case True
    with pid_inv_found [OF assms(2) Some] have st: "pid_inv (set_status i TERMINATED s)"
      using assms by (intro pid_inv_set_status) auto
    show ?thesis
    proof (cases "running_process_index s = int i")
      case ri: True
      from pid_inv_scheduler [OF table_inv_clear [OF assms(1) ri, of TERMINATED]] st Some True ri
      show ?thesis
        by (auto simp: perform_kill_def Let_def case_prod_beta)
    next
      case False
      with st Some True show ?thesis
        by (auto simp: perform_kill_def Let_def)
    qed
  qed
qed

lemma pid_inv_reap:
  assumes "pid_inv s" "0 < p"
  shows "pid_inv (reap p t s)"
proof (cases "find_pid p s")
  case None
  with assms show ?thesis by (simp add: reap_def)
next
  case (Some i)
  with pid_inv_found [OF assms(1) Some assms(2)] have "pid_inv (set_status i TERMINATED s)"
    using assms by (intro pid_inv_set_status) auto
  with Some show ?thesis
    by (simp add: reap_def Let_def)
qed

lemma inv_sigchld_handler:
  "table_inv s \<Longrightarrow> pid_inv s \<Longrightarrow> pid_inv (sigchld_handler ws s)"
  by (induction ws s rule: sigchld_handler.induct)
     (simp_all add: table_inv_reap pid_inv_reap)

lemma pid_inv_stored:
  assumes "pid_inv s" "0 < p" "st \<noteq> UNUSED"
  shows "pid_inv (s\<lparr>process_records := (process_records s)
           [i := \<lparr>pid = p, status = st, remaining_runtime = b\<rparr>]\<rparr>)"
  using assms
  by (cases "i < length (process_records s)")
     (auto simp: pid_inv_def nth_list_update list_update_beyond)

lemma pid_inv_perform_run:
  assumes "table_inv s" "pid_inv s"
  shows "pid_inv (snd (perform_run e args s))"
proof (cases args)
  case None
  with assms show ?thesis by (simp add: perform_run.simps)
next
  case (Some a)
  show ?thesis
  proof (cases "4 \<le> length a \<and> 0 < atoi (a ! 3) \<and> 0 \<le> run_index s \<and> 0 < fork_ret e")
    case False
    with assms Some show ?thesis
      by (auto simp: perform_run.simps arg_def Let_def)
  next
    case True
    then have ri: "run_index s = int (nat (run_index s))" by simp
    let ?i = "nat (run_index s)"
    let ?s1 = "s\<lparr>process_records := (process_records s)[?i :=
                 \<lparr>pid = fork_ret e, status = READY, remaining_runtime = atoi (a ! 3)\<rparr>]\<rparr>"
    have inv1: "table_inv ?s1"
      by (rule table_inv_stored(1) [OF assms(1) ri]) simp
    have pid1: "pid_inv ?s1"
      using True by (intro pid_inv_stored assms) simp_all
    from run_index_D [OF ri] have i: "?i < MAX_PROCESSES" by simp
    show ?thesis
    proof (cases "running_process_index s < 0")
      case idle: True
      let ?s2 = "(set_status ?i RUNNING (?s1\<lparr>start_time := cmd_time e\<rparr>))
                   \<lparr>running_process_index := int ?i\<rparr>"
      from idle assms have "running_process_index (?s1\<lparr>start_time := cmd_time e\<rparr>) = -1"
        by (simp add: table_inv_def)
      moreover from inv1 have "table_inv (?s1\<lparr>start_time := cmd_time e\<rparr>)" by simp
      ultimately have inv2: "table_inv ?s2"
        using i by (intro table_inv_start)
      have "pid_inv (set_status ?i RUNNING (?s1\<lparr>start_time := cmd_time e\<rparr>))"
        using pid1 by (intro pid_inv_set_status) simp_all
      then have "pid_inv ?s2" by simp
      with inv2 have "pid_inv (snd (scheduler e ?s2))"
        by (rule pid_inv_scheduler)
      moreover have "snd (perform_run e (Some a) s) = snd (scheduler e ?s2)"
        using True idle by (subst perform_run_idle [OF _ _ ri]) simp_all
      ultimately show ?thesis using Some by simp
    next
      case busy: False
      have "snd (perform_run e (Some a) s) =
          (if cmd_kill_ok e then snd (scheduler e ?s1) else ?s1)"
        using True busy by (subst perform_run_busy [OF _ _ ri]) simp_all
      with pid1 pid_inv_scheduler [OF inv1 pid1, of e] Some show ?thesis by simp
    qed
  qed
qed

lemma reachable_pid_inv: "reachable s \<Longrightarrow> pid_inv s"
proof (induction rule: reachable.induct)
  case init
  show ?case by (rule pid_inv_initial)
next
  case (list s)
  then show ?case by (simp add: perform_list_def Let_def)
next
  case (tick s e)
  then show ?case
    by (simp add: main_tick_def pid_inv_scheduler reachable_table_inv)
qed (simp_all add: reachable_table_inv pid_inv_perform_run pid_inv_perform_stop
      pid_inv_perform_resume pid_inv_perform_kill pid_inv_scheduler inv_sigchld_handler)

lemma reachable_used_pid:
  "reachable s \<Longrightarrow> i < MAX_PROCESSES \<Longrightarrow> status (process_records s ! i) \<noteq> UNUSED \<Longrightarrow>
   0 < pid (process_records s ! i)"
  by (drule reachable_pid_inv) (auto simp: pid_inv_def split: if_splits)

subsection \<open>Concrete states\<close>

lemma atoi_5: "atoi ''5'' = 5"
  by code_simp

lemma atoi_examples:
  "atoi ''7'' = 7" "atoi ''9'' = 9" "atoi ''10'' = 10" "atoi ''y'' = 0"
  "atoi ''2147483647'' = 2147483647"
  by code_simp+

lemma one_running_eq:
  "one_running = \<lparr>process_records = (replicate MAX_PROCESSES unused_record)
       [0 := \<lparr>pid = 100, status = RUNNING, remaining_runtime = 5\<rparr>],
      running_process_index = 0, start_time = 1000, elapsed_time = 0\<rparr>"
proof -
  let ?r = "\<lparr>pid = 100, status = READY, remaining_runtime = 5\<rparr>"
  let ?s2 = "\<lparr>process_records = (replicate MAX_PROCESSES unused_record)
       [0 := \<lparr>pid = 100, status = RUNNING, remaining_runtime = 5\<rparr>],
      running_process_index = 0, start_time = 1000, elapsed_time = 0\<rparr>"
  let ?s3 = "\<lparr>process_records = (replicate MAX_PROCESSES unused_record)[0 := ?r],
      running_process_index = -1, start_time = 1000, elapsed_time = 0\<rparr>"
  have "one_running = snd (scheduler env_ok
        ((set_status 0 RUNNING
           (initial_state\<lparr>process_records := (process_records initial_state)[0 :=
                 \<lparr>pid = fork_ret env_ok, status = READY,
                    remaining_runtime = atoi ([''run'', ''./w'', ''x'', ''5''] ! 3)\<rparr>],
              start_time := cmd_time env_ok\<rparr>))\<lparr>running_process_index := int 0\<rparr>))"
    unfolding one_running_def
    by (subst perform_run_idle [where i = 0])
       (simp_all add: atoi_5 run_index_initial initial_state_fields env_ok_def)
  then have run: "one_running = snd (scheduler env_ok ?s2)"
    by (simp add: atoi_5 initial_state_eq set_status_def MAX_PROCESSES_def env_ok_def)
  have susp: "(set_status 0 READY (fold_elapsed (sched_fold_time env_ok) 0 ?s2))
                 \<lparr>running_process_index := -1\<rparr> = ?s3"
    by (simp add: fold_elapsed_def set_status_def MAX_PROCESSES_def env_ok_def)
  have "min_ready (process_records ?s3) MAX_PROCESSES 0"
    by (simp add: min_ready_def MAX_PROCESSES_def INT_MAX_def nth_list_update unused_record_def)
  then have "find_min_runtime_process ?s3 = int 0"
    by (rule find_min_eq)
  then have disp: "snd (dispatch_min env_ok ?s3) = ?s2"
    by (simp add: dispatch_min_some set_status_def MAX_PROCESSES_def env_ok_def)
  have "snd (scheduler env_ok ?s2) = snd (dispatch_min env_ok ?s3)"
    using susp by (simp add: scheduler_preempt env_ok_def)
  with run disp show ?thesis by simp
qed

lemma list_update_again:
  "i \<noteq> j \<Longrightarrow> xs[i := a, j := b, i := c] = xs[i := c, j := b]"
  by (simp add: list_update_swap [of j i])

lemma one_terminated_eq:
  "one_terminated = \<lparr>process_records = (replicate MAX_PROCESSES unused_record)
       [0 := \<lparr>pid = 100, status = TERMINATED, remaining_runtime = 5\<rparr>],
      running_process_index = -1, start_time = 1000, elapsed_time = 0\<rparr>"
proof -
  let ?s = "\<lparr>process_records = (replicate MAX_PROCESSES unused_record)
       [0 := \<lparr>pid = 100, status = RUNNING, remaining_runtime = 5\<rparr>],
      running_process_index = 0, start_time = 1000, elapsed_time = 0\<rparr>"
  let ?k = "\<lparr>process_records = (replicate MAX_PROCESSES unused_record)
       [0 := \<lparr>pid = 100, status = TERMINATED, remaining_runtime = 5\<rparr>],
      running_process_index = -1, start_time = 1000, elapsed_time = 0\<rparr>"
  have f: "find_pid 100 ?s = Some 0"
    by (rule find_pid_eq) (simp_all add: MAX_PROCESSES_def)
  have "snd (perform_kill env_ok 100 ?s) =
      snd (scheduler env_ok ((fold_elapsed (cmd_time env_ok) 0 (set_status 0 TERMINATED ?s))
                            \<lparr>running_process_index := -1\<rparr>))"
    by (subst perform_kill_running [OF _ f]) (simp_all add: MAX_PROCESSES_def env_ok_def)
  also have "(fold_elapsed (cmd_time env_ok) 0 (set_status 0 TERMINATED ?s))
                            \<lparr>running_process_index := -1\<rparr> = ?k"
    by (simp add: fold_elapsed_def set_status_def MAX_PROCESSES_def env_ok_def)
  also have "snd (scheduler env_ok ?k) = ?k"
  proof -
    have "find_min_runtime_process ?k = -1"
      by (rule find_min_none) (simp add: MAX_PROCESSES_def nth_list_update unused_record_def)
    then show ?thesis
      by (simp add: scheduler_idle dispatch_min_none)
  qed
  finally show ?thesis
    by (simp add: one_terminated_def one_running_eq)
qed

lemma two_processes_eq:
  "two_processes = \<lparr>process_records = (replicate MAX_PROCESSES unused_record)
        [0 := \<lparr>pid = 100, status = RUNNING, remaining_runtime = 5\<rparr>,
         1 := \<lparr>pid = 101, status = READY, remaining_runtime = 9\<rparr>],
      running_process_index = 0, start_time = 1000, elapsed_time = 0\<rparr>"
proof -
  let ?args = "[''run'', ''./v'', ''y'', ''9'']"
  let ?s = "\<lparr>process_records = (replicate MAX_PROCESSES unused_record)
       [0 := \<lparr>pid = 100, status = RUNNING, remaining_runtime = 5\<rparr>],
      running_process_index = 0, start_time = 1000, elapsed_time = 0\<rparr>"
  let ?s1 = "\<lparr>process_records = (replicate MAX_PROCESSES unused_record)
       [0 := \<lparr>pid = 100, status = RUNNING, remaining_runtime = 5\<rparr>,
        1 := \<lparr>pid = 101, status = READY, remaining_runtime = 9\<rparr>],
      running_process_index = 0, start_time = 1000, elapsed_time = 0\<rparr>"
  let ?s2 = "\<lparr>process_records = (replicate MAX_PROCESSES unused_record)
       [0 := \<lparr>pid = 100, status = READY, remaining_runtime = 5\<rparr>,
        1 := \<lparr>pid = 101, status = READY, remaining_runtime = 9\<rparr>],
      running_process_index = -1, start_time = 1000, elapsed_time = 0\<rparr>"
  have i: "run_index ?s = int 1"
    by (rule run_index_unused)
       (simp_all add: MAX_PROCESSES_def unused_record_def)
  have "snd (perform_run env_second (Some ?args) ?s) =
      snd (scheduler env_second
        (?s\<lparr>process_records := (process_records ?s)[1 :=
            \<lparr>pid = fork_ret env_second, status = READY,
               remaining_runtime = atoi (?args ! 3)\<rparr>]\<rparr>))"
    by (subst perform_run_busy [OF _ _ i])
       (simp_all add: atoi_examples env_second_def env_ok_def)
  also have "?s\<lparr>process_records := (process_records ?s)[1 :=
            \<lparr>pid = fork_ret env_second, status = READY,
               remaining_runtime = atoi (?args ! 3)\<rparr>]\<rparr> = ?s1"
    by (simp add: atoi_examples env_second_def env_ok_def)
  also have "snd (scheduler env_second ?s1) = snd (dispatch_min env_second ?s2)"
  proof -
    have "(set_status 0 READY (fold_elapsed (sched_fold_time env_second) 0 ?s1))
                 \<lparr>running_process_index := -1\<rparr> = ?s2"
      by (simp add: fold_elapsed_def set_status_def MAX_PROCESSES_def env_second_def env_ok_def
          list_update_again)
    then show ?thesis
      by (simp add: scheduler_preempt env_second_def env_ok_def)
  qed
  also have "snd (dispatch_min env_second ?s2) = ?s1"
  proof -
    have "min_ready (process_records ?s2) MAX_PROCESSES 0"
      by (simp add: min_ready_def MAX_PROCESSES_def INT_MAX_def nth_list_update unused_record_def)
    then have "find_min_runtime_process ?s2 = int 0"
      by (rule find_min_eq)
    then show ?thesis
      by (simp add: dispatch_min_some set_status_def MAX_PROCESSES_def env_second_def env_ok_def
          list_update_again)
  qed
  finally show ?thesis
    by (simp add: two_processes_def one_running_eq)
qed

lemma reachable_examples:
  "reachable one_running" "reachable int_max_run" "reachable one_terminated"
  "reachable two_processes"
  unfolding one_running_def int_max_run_def one_terminated_def two_processes_def
  by (intro reachable.run reachable.kill reachable.init)+

lemma exit_of_running_state:
  "running_process_index (snd (perform_exit env_ok one_running)) = 0"
  "status (process_records (snd (perform_exit env_ok one_running)) ! 0) = TERMINATED"
proof -
  have l: "length (process_records one_running) = MAX_PROCESSES"
    by (simp add: one_running_eq)
  show "running_process_index (snd (perform_exit env_ok one_running)) = 0"
    by (simp add: perform_exit_running_index [OF l]) (simp add: one_running_eq)
  have "status (process_records (snd (perform_exit env_ok one_running)) ! 0) =
      (if live (process_records one_running ! 0) then TERMINATED
       else status (process_records one_running ! 0))"
    by (rule perform_exit_status [OF l]) (simp add: MAX_PROCESSES_def)
  also have "\<dots> = TERMINATED"
    by (simp add: one_running_eq live_def MAX_PROCESSES_def)
  finally show "status (process_records (snd (perform_exit env_ok one_running)) ! 0) = TERMINATED" .
qed

lemma int_max_run_eq:
  "int_max_run = \<lparr>process_records = (replicate MAX_PROCESSES unused_record)
       [0 := \<lparr>pid = 100, status = READY, remaining_runtime = INT_MAX\<rparr>],
      running_process_index = -1, start_time = 1000, elapsed_time = 0\<rparr>"
proof -
  let ?s2 = "\<lparr>process_records = (replicate MAX_PROCESSES unused_record)
       [0 := \<lparr>pid = 100, status = RUNNING, remaining_runtime = INT_MAX\<rparr>],
      running_process_index = 0, start_time = 1000, elapsed_time = 0\<rparr>"
  let ?s3 = "\<lparr>process_records = (replicate MAX_PROCESSES unused_record)
       [0 := \<lparr>pid = 100, status = READY, remaining_runtime = INT_MAX\<rparr>],
      running_process_index = -1, start_time = 1000, elapsed_time = 0\<rparr>"
  have "int_max_run = snd (scheduler env_ok
        ((set_status 0 RUNNING
           (initial_state\<lparr>process_records := (process_records initial_state)[0 :=
                 \<lparr>pid = fork_ret env_ok, status = READY,
                    remaining_runtime = atoi ([''run'', ''./w'', ''x'', ''2147483647''] ! 3)\<rparr>],
              start_time := cmd_time env_ok\<rparr>))\<lparr>running_process_index := int 0\<rparr>))"
    unfolding int_max_run_def
    by (subst perform_run_idle [where i = 0])
       (simp_all add: atoi_examples run_index_initial initial_state_fields env_ok_def)
  then have run: "int_max_run = snd (scheduler env_ok ?s2)"
    by (simp add: atoi_examples initial_state_eq set_status_def MAX_PROCESSES_def env_ok_def
        INT_MAX_def)
  have susp: "(set_status 0 READY (fold_elapsed (sched_fold_time env_ok) 0 ?s2))
                 \<lparr>running_process_index := -1\<rparr> = ?s3"
    by (simp add: fold_elapsed_def set_status_def MAX_PROCESSES_def env_ok_def)
  have "find_min_runtime_process ?s3 = -1"
    by (rule find_min_none)
       (simp add: MAX_PROCESSES_def nth_list_update unused_record_def)
  then have disp: "snd (dispatch_min env_ok ?s3) = ?s3"
    by (simp add: dispatch_min_none)
  have "snd (scheduler env_ok ?s2) = snd (dispatch_min env_ok ?s3)"
    using susp by (simp add: scheduler_preempt env_ok_def)
  with run disp show ?thesis by simp
qed

lemma find_min_int_max_run: "find_min_runtime_process int_max_run = -1"
  unfolding int_max_run_eq
  by (rule find_min_none) (simp add: MAX_PROCESSES_def nth_list_update unused_record_def)

lemma sjf_example_min_ready: "min_ready (process_records sjf_example) MAX_PROCESSES 1"
  by (simp add: min_ready_def sjf_example_def MAX_PROCESSES_def INT_MAX_def nth_list_update
      unused_record_def)

lemma two_processes_fields:
  "length (process_records two_processes) = MAX_PROCESSES"
  "process_records two_processes ! 0 = \<lparr>pid = 100, status = RUNNING, remaining_runtime = 5\<rparr>"
  "process_records two_processes ! 1 = \<lparr>pid = 101, status = READY, remaining_runtime = 9\<rparr>"
  "running_process_index two_processes = 0"
  by (simp_all add: two_processes_eq MAX_PROCESSES_def)

lemma full_table_nth:
  "i < MAX_PROCESSES \<Longrightarrow>
   process_records (full_table st) ! i = \<lparr>pid = 200 + int i, status = st, remaining_runtime = 10\<rparr>"
  by (simp add: full_table_def)

lemma full_table_length: "length (process_records (full_table st)) = MAX_PROCESSES"
  by (simp add: full_table_def)

subsection \<open>Tables given by a function\<close>

lemma table_of_length [simp]: "length (table_of f) = MAX_PROCESSES"
  by (simp add: table_of_def)

lemma table_of_nth [simp]: "i < MAX_PROCESSES \<Longrightarrow> table_of f ! i = f i"
  by (simp add: table_of_def)

lemma table_of_eqI: "(\<And>i. i < MAX_PROCESSES \<Longrightarrow> f i = g i) \<Longrightarrow> table_of f = table_of g"
  by (simp add: table_of_def)

lemma table_of_update:
  "i < MAX_PROCESSES \<Longrightarrow> (table_of f)[i := v] = table_of (f(i := v))"
  by (rule nth_equalityI) (simp_all add: nth_list_update)

lemma tbl_fields [simp]:
  "process_records (tbl f r) = table_of f"
  "running_process_index (tbl f r) = r"
  "start_time (tbl f r) = 1000"
  "elapsed_time (tbl f r) = 0"
  by (simp_all add: tbl_def)

lemma tbl_eqI: "(\<And>i. i < MAX_PROCESSES \<Longrightarrow> f i = g i) \<Longrightarrow> r = r' \<Longrightarrow> tbl f r = tbl g r'"
  using table_of_eqI [of f g] by (simp add: tbl_def)

lemma tbl_set_status:
  "i < MAX_PROCESSES \<Longrightarrow> set_status i st (tbl f r) = tbl (f(i := (f i)\<lparr>status := st\<rparr>)) r"
  by (simp add: set_status_def tbl_def table_of_update)

lemma tbl_records [simp]: "(tbl f r)\<lparr>process_records := table_of g\<rparr> = tbl g r"
  by (simp add: tbl_def)

lemma tbl_fold_elapsed [simp]: "fold_elapsed 1000 i (tbl f r) = tbl f r"
  by (simp add: fold_elapsed_def tbl_def)

lemma tbl_running_index [simp]: "(tbl f r)\<lparr>running_process_index := r'\<rparr> = tbl f r'"
  by (simp add: tbl_def)

lemma tbl_start_time [simp]: "(tbl f r)\<lparr>start_time := 1000\<rparr> = tbl f r"
  by (simp add: tbl_def)

lemma env_pid_fields [simp]:
  "fork_ret (env_pid p) = p" "cmd_kill_ok (env_pid p)" "cmd_time (env_pid p) = 1000"
  "sched_stop_ok (env_pid p)" "sched_fold_time (env_pid p) = 1000"
  "sched_cont_ok (env_pid p)" "sched_dispatch_time (env_pid p) = 1000"
  by (simp_all add: env_pid_def env_ok_def)

lemma env_ok_pid: "env_ok = env_pid 100"
  by (simp add: env_pid_def env_ok_def)

text \<open>The scheduler on such a state, when all its calls succeed at clock reading 1000.\<close>

lemma tbl_dispatch:
  assumes "min_ready (table_of f) MAX_PROCESSES k"
  shows "dispatch_min (env_pid p) (tbl f (- 1)) =
     ([Kill (pid (f k)) SIGCONT], tbl (f(k := (f k)\<lparr>status := RUNNING\<rparr>)) (int k))"
proof -
  from assms have k: "k < MAX_PROCESSES" by (simp add: min_ready_def)
  have "find_min_runtime_process (tbl f (- 1)) = int k"
    by (rule find_min_eq) (simp add: assms)
  with k show ?thesis
    by (simp add: dispatch_min_some tbl_set_status)
qed

lemma tbl_scheduler_idle:
  assumes "min_ready (table_of f) MAX_PROCESSES k"
  shows "scheduler (env_pid p) (tbl f (- 1)) =
     ([Kill (pid (f k)) SIGCONT], tbl (f(k := (f k)\<lparr>status := RUNNING\<rparr>)) (int k))"
  by (simp add: scheduler_idle tbl_dispatch [OF assms])

lemma tbl_scheduler_preempt:
  assumes "r < MAX_PROCESSES"
    and "min_ready (table_of (f(r := (f r)\<lparr>status := READY\<rparr>))) MAX_PROCESSES k"
  shows "scheduler (env_pid p) (tbl f (int r)) =
     ([Kill (pid (f r)) SIGSTOP, Kill (pid ((f(r := (f r)\<lparr>status := READY\<rparr>)) k)) SIGCONT],
      tbl ((f(r := (f r)\<lparr>status := READY\<rparr>))
             (k := ((f(r := (f r)\<lparr>status := READY\<rparr>)) k)\<lparr>status := RUNNING\<rparr>)) (int k))"
  using assms(1)
  by (simp add: scheduler_preempt tbl_set_status tbl_dispatch [OF assms(2)])

subsection \<open>Filling the table and giving out an id again\<close>

declare fill.simps [simp del]

lemma atoi_1: "atoi ''1'' = 1"
  by code_simp

lemma MAX_PROCESSES_pos: "0 < MAX_PROCESSES"
  by (simp add: MAX_PROCESSES_def)

lemma replicate_table: "replicate MAX_PROCESSES x = table_of (\<lambda>i. x)"
  by (simp add: table_of_def map_replicate_trivial)

lemma filled_slot_ready:
  "0 < n \<Longrightarrow> min_ready (table_of ((filled_slot n)(0 := (filled_slot n 0)\<lparr>status := READY\<rparr>)))
     MAX_PROCESSES 0"
  by (simp add: min_ready_def filled_slot_def worker_def unused_record_def INT_MAX_def
      MAX_PROCESSES_def)

lemma fill_1: "fill (Suc 0) = tbl (filled_slot 1) 0"
proof -
  let ?args = "[''run'', ''./w'', ''x'', ''1'']"
  let ?r = "\<lparr>pid = 1000, status = READY, remaining_runtime = 1\<rparr>"
  have "initial_state\<lparr>process_records := (process_records initial_state)[0 := ?r],
          start_time := 1000\<rparr> = tbl ((\<lambda>i. unused_record)(0 := ?r)) (- 1)"
    using MAX_PROCESSES_pos
    by (simp add: initial_state_eq replicate_table table_of_update tbl_def)
  then have s2: "(set_status 0 RUNNING
           (initial_state\<lparr>process_records := (process_records initial_state)[0 := ?r],
              start_time := 1000\<rparr>))\<lparr>running_process_index := int 0\<rparr> =
        tbl (filled_slot 1) 0"
    by (simp add: tbl_set_status MAX_PROCESSES_def)
       (rule tbl_eqI, simp_all add: filled_slot_def worker_def)
  have "fill (Suc 0) = snd (scheduler (env_pid 1000)
        ((set_status 0 RUNNING
           (initial_state\<lparr>process_records := (process_records initial_state)[0 :=
                 \<lparr>pid = fork_ret (env_pid 1000), status = READY,
                    remaining_runtime = atoi (?args ! 3)\<rparr>],
              start_time := cmd_time (env_pid 1000)\<rparr>))\<lparr>running_process_index := int 0\<rparr>))"
    by (simp add: fill.simps, subst perform_run_idle [where i = 0])
       (simp_all add: atoi_1 run_index_initial initial_state_fields)
  also have "\<dots> = snd (scheduler (env_pid 1000) (tbl (filled_slot 1) 0))"
    using s2 by (simp add: atoi_1)
  also have "\<dots> = tbl (filled_slot 1) 0"
    using tbl_scheduler_preempt [OF _ filled_slot_ready [of 1], of 1000]
    by (simp add: MAX_PROCESSES_def)
       (rule tbl_eqI, simp_all add: filled_slot_def worker_def)
  finally show ?thesis .
qed

lemma fill_Suc:
  assumes "0 < n" "n < MAX_PROCESSES" "fill n = tbl (filled_slot n) 0"
  shows "fill (Suc n) = tbl (filled_slot (Suc n)) 0"
proof -
  let ?args = "[''run'', ''./w'', ''x'', ''5'']"
  let ?f = "(filled_slot n)(n := \<lparr>pid = 1000 + int n, status = READY, remaining_runtime = 5\<rparr>)"
  have i: "run_index (tbl (filled_slot n) 0) = int n"
    using assms(1,2)
    by (intro run_index_unused) (simp_all add: filled_slot_def worker_def unused_record_def)
  have "fill (Suc n) = snd (perform_run (env_pid (1000 + int n)) (Some ?args) (tbl (filled_slot n) 0))"
    using assms by (simp add: fill.simps)
  also have "\<dots> = snd (scheduler (env_pid (1000 + int n))
        ((tbl (filled_slot n) 0)\<lparr>process_records := (process_records (tbl (filled_slot n) 0))[n :=
            \<lparr>pid = fork_ret (env_pid (1000 + int n)), status = READY,
               remaining_runtime = atoi (?args ! 3)\<rparr>]\<rparr>))"
    by (subst perform_run_busy [OF _ _ i]) (simp_all add: atoi_5)
  also have "\<dots> = snd (scheduler (env_pid (1000 + int n)) (tbl ?f 0))"
    using assms(2) by (simp add: atoi_5 table_of_update)
  also have "\<dots> = tbl (filled_slot (Suc n)) 0"
  proof -
    have "min_ready (table_of (?f(0 := (?f 0)\<lparr>status := READY\<rparr>))) MAX_PROCESSES 0"
      using assms(1)
      by (simp add: min_ready_def filled_slot_def worker_def unused_record_def INT_MAX_def
          MAX_PROCESSES_def)
    from tbl_scheduler_preempt [OF _ this, of "1000 + int n"] assms(1) show ?thesis
      by (simp add: MAX_PROCESSES_def)
         (rule tbl_eqI, auto simp: filled_slot_def worker_def)
  qed
  finally show ?thesis .
qed

lemma fill_eq: "n < MAX_PROCESSES \<Longrightarrow> fill (Suc n) = tbl (filled_slot (Suc n)) 0"
proof (induction n)
  case 0
  show ?case using fill_1 by simp
next
  case (Suc n)
  from Suc.prems have "n < MAX_PROCESSES" by simp
  from Suc.IH [OF this] have "fill (Suc n) = tbl (filled_slot (Suc n)) 0" .
  from fill_Suc [OF _ Suc.prems this] show ?case by simp
qed

lemma fill_full: "fill MAX_PROCESSES = tbl (filled_slot MAX_PROCESSES) 0"
  using fill_eq [of 63] by (simp add: MAX_PROCESSES_def)

lemma reachable_fill: "reachable (fill n)"
  by (induction n) (simp_all add: fill.simps reachable.init reachable.run)

lemma killed_one_eq:
  "snd (perform_kill env_ok 1001 (tbl (filled_slot MAX_PROCESSES) 0)) = tbl killed_one_slot 0"
proof -
  have f: "find_pid 1001 (tbl (filled_slot MAX_PROCESSES) 0) = Some 1"
    by (rule find_pid_eq) (simp_all add: filled_slot_def worker_def MAX_PROCESSES_def)
  have "perform_kill (env_pid 100) 1001 (tbl (filled_slot MAX_PROCESSES) 0) =
      ([Kill 1001 SIGTERM],
       fold_elapsed (cmd_time (env_pid 100)) 1
         (set_status 1 TERMINATED (tbl (filled_slot MAX_PROCESSES) 0)))"
    by (rule perform_kill_other [OF _ f])
       (simp_all add: filled_slot_def worker_def MAX_PROCESSES_def)
  then show ?thesis
    unfolding env_ok_pid
    by (simp add: tbl_set_status MAX_PROCESSES_def)
       (rule tbl_eqI, auto simp: filled_slot_def killed_one_slot_def worker_def MAX_PROCESSES_def)
qed

lemma killed_two_eq:
  "snd (perform_kill env_ok 1000 (tbl killed_one_slot 0)) = tbl killed_two_slot 2"
proof -
  let ?g = "killed_one_slot(0 := (killed_one_slot 0)\<lparr>status := TERMINATED\<rparr>)"
  have f: "find_pid 1000 (tbl killed_one_slot 0) = Some 0"
    by (rule find_pid_eq) (simp_all add: killed_one_slot_def worker_def MAX_PROCESSES_def)
  have "snd (perform_kill (env_pid 100) 1000 (tbl killed_one_slot 0)) =
      snd (scheduler (env_pid 100)
        ((fold_elapsed (cmd_time (env_pid 100)) 0 (set_status 0 TERMINATED (tbl killed_one_slot 0)))
           \<lparr>running_process_index := -1\<rparr>))"
    by (subst perform_kill_running [OF _ f])
       (simp_all add: killed_one_slot_def worker_def MAX_PROCESSES_def)
  also have "\<dots> = snd (scheduler (env_pid 100) (tbl ?g (- 1)))"
    by (simp add: tbl_set_status MAX_PROCESSES_pos)
  also have "\<dots> = tbl killed_two_slot 2"
  proof -
    have "min_ready (table_of ?g) MAX_PROCESSES 2"
      by (auto simp: min_ready_def killed_one_slot_def worker_def INT_MAX_def MAX_PROCESSES_def
          less_Suc_eq numeral_2_eq_2)
    from tbl_scheduler_idle [OF this, of 100] show ?thesis
      by simp (rule tbl_eqI, auto simp: killed_one_slot_def killed_two_slot_def worker_def)
  qed
  finally show ?thesis
    by (simp add: env_ok_pid)
qed

lemma reused_pid_eq: "reused_pid = tbl reused_slot 0"
proof -
  let ?args = "[''run'', ''./w'', ''x'', ''1'']"
  let ?f = "killed_two_slot(0 := \<lparr>pid = 1001, status = READY, remaining_runtime = 1\<rparr>)"
  have i: "run_index (tbl killed_two_slot 2) = int 0"
    by (rule run_index_terminated)
       (simp_all add: killed_two_slot_def worker_def MAX_PROCESSES_def)
  have "reused_pid = snd (perform_run (env_pid 1001) (Some ?args) (tbl killed_two_slot 2))"
    by (simp add: reused_pid_def fill_full killed_one_eq killed_two_eq)
  also have "\<dots> = snd (scheduler (env_pid 1001)
        ((tbl killed_two_slot 2)\<lparr>process_records := (process_records (tbl killed_two_slot 2))[0 :=
            \<lparr>pid = fork_ret (env_pid 1001), status = READY,
               remaining_runtime = atoi (?args ! 3)\<rparr>]\<rparr>))"
    by (subst perform_run_busy [OF _ _ i]) (simp_all add: atoi_1)
  also have "\<dots> = snd (scheduler (env_pid 1001) (tbl ?f (int 2)))"
    using MAX_PROCESSES_pos by (simp add: atoi_1 table_of_update)
  also have "\<dots> = tbl reused_slot 0"
  proof -
    have "min_ready (table_of (?f(2 := (?f 2)\<lparr>status := READY\<rparr>))) MAX_PROCESSES 0"
      by (simp add: min_ready_def killed_two_slot_def worker_def INT_MAX_def MAX_PROCESSES_def)
    from tbl_scheduler_preempt [OF _ this, of 1001] show ?thesis
      by (simp add: MAX_PROCESSES_def)
         (rule tbl_eqI, auto simp: killed_two_slot_def reused_slot_def worker_def)
  qed
  finally show ?thesis .
qed

lemma kill_of_reused_pid:
  "perform_kill env_ok 1001 (tbl reused_slot 0) =
     ([Kill 1001 SIGTERM, Kill 1002 SIGCONT],
      tbl (reused_slot(0 := \<lparr>pid = 1001, status = TERMINATED, remaining_runtime = 1\<rparr>,
                       2 := worker 2 RUNNING)) 2)"
proof -
  let ?g = "reused_slot(0 := (reused_slot 0)\<lparr>status := TERMINATED\<rparr>)"
  have f: "find_pid 1001 (tbl reused_slot 0) = Some 0"
    by (rule find_pid_eq) (simp_all add: reused_slot_def MAX_PROCESSES_def)
  have s: "(fold_elapsed (cmd_time (env_pid 100)) 0 (set_status 0 TERMINATED (tbl reused_slot 0)))
           \<lparr>running_process_index := -1\<rparr> = tbl ?g (- 1)"
    by (simp add: tbl_set_status MAX_PROCESSES_pos)
  have m: "min_ready (table_of ?g) MAX_PROCESSES 2"
    by (auto simp: min_ready_def reused_slot_def worker_def INT_MAX_def MAX_PROCESSES_def
        less_Suc_eq numeral_2_eq_2)
  have "perform_kill (env_pid 100) 1001 (tbl reused_slot 0) =
      (Kill 1001 SIGTERM # fst (scheduler (env_pid 100) (tbl ?g (- 1))),
       snd (scheduler (env_pid 100) (tbl ?g (- 1))))"
    unfolding s [symmetric]
    by (rule perform_kill_running [OF _ f]) (simp_all add: reused_slot_def MAX_PROCESSES_def)
  also have "\<dots> = ([Kill 1001 SIGTERM, Kill 1002 SIGCONT],
      tbl (reused_slot(0 := \<lparr>pid = 1001, status = TERMINATED, remaining_runtime = 1\<rparr>,
                       2 := worker 2 RUNNING)) 2)"
    unfolding tbl_scheduler_idle [OF m]
    by (simp add: reused_slot_def worker_def)
  finally show ?thesis
    by (simp add: env_ok_pid)
qed

lemma reachable_reused_pid: "reachable reused_pid"
  unfolding reused_pid_def
  by (intro reachable.run reachable.kill reachable_fill)

section \<open>The claims\<close>

text \<open>
  C1 (as amended). In every state the manager reaches by \<open>run\<close>, \<open>stop\<close>,
  \<open>resume\<close>, \<open>kill\<close>, \<open>list\<close>, scheduler passes, updates of the main loop and runs
  of the \<open>SIGCHLD\<close> handler, at most one slot is \<open>RUNNING\<close>, and
  \<open>running_process_index\<close> is non-negative exactly when it is the index of that slot.
  \<open>exit\<close>, after which the manager stops, leaves no slot \<open>RUNNING\<close> (so still at most
  one); it does not reset \<open>running_process_index\<close>.
\<close>

theorem reachable_states_have_one_running_slot:
  assumes "reachable s"
  shows "at_most_one_running s \<and> running_index_consistent s \<and>
         at_most_one_running (snd (perform_exit e s)) \<and>
         (\<forall>i<MAX_PROCESSES. status (process_records (snd (perform_exit e s)) ! i) \<noteq> RUNNING)"
proof -
  from assms have inv: "table_inv s"
    by (rule reachable_table_inv)
  then have l: "length (process_records s) = MAX_PROCESSES"
    by (simp add: table_inv_def)
  have "\<forall>i<MAX_PROCESSES. status (process_records (snd (perform_exit e s)) ! i) \<noteq> RUNNING"
    using perform_exit_no_running [OF l _ inv] by blast
  moreover from this have "at_most_one_running (snd (perform_exit e s))"
    by (simp add: at_most_one_running_def)
  ultimately show ?thesis
    using table_inv_running [OF inv] by blast
qed

theorem reachable_states_have_one_running_slot_witness:
  "reachable one_running \<and> running_process_index one_running = 0 \<and>
   status (process_records one_running ! 0) = RUNNING \<and>
   at_most_one_running one_running \<and> running_index_consistent one_running \<and>
   at_most_one_running (snd (perform_exit env_ok one_running))"
proof -
  have r: "reachable one_running"
    unfolding one_running_def by (intro reachable.run reachable.init)
  have "running_process_index one_running = 0"
    "status (process_records one_running ! 0) = RUNNING"
    by (simp_all add: one_running_eq MAX_PROCESSES_def)
  with r reachable_states_have_one_running_slot [OF r, of env_ok] show ?thesis
    by blast
qed

text \<open>
  C1 as stated fails at \<open>exit\<close>: after \<open>run ./w x 5\<close> and \<open>exit\<close>,
  \<open>running_process_index\<close> is still 0 and slot 0 is \<open>TERMINATED\<close>.
\<close>

theorem exit_leaves_running_index_set:
  "running_process_index
     (snd (perform_exit env_ok
        (snd (perform_run env_ok (Some [''run'', ''./w'', ''x'', ''5'']) initial_state)))) = 0 \<and>
   status (process_records
     (snd (perform_exit env_ok
        (snd (perform_run env_ok (Some [''run'', ''./w'', ''x'', ''5'']) initial_state)))) ! 0)
     = TERMINATED \<and>
   \<not> running_index_consistent
     (snd (perform_exit env_ok
        (snd (perform_run env_ok (Some [''run'', ''./w'', ''x'', ''5'']) initial_state))))"
  using exit_of_running_state
  by (simp add: running_index_consistent_def one_running_def [symmetric])

text \<open>
  C2. The selection loop starts from \<open>min_runtime = INT_MAX\<close> and takes a ready slot
  only when its remaining runtime is strictly smaller, so a ready slot whose remaining
  runtime is \<open>INT_MAX\<close> is never selected. After \<open>run ./w x 2147483647\<close> on the
  initial state the new process is the only ready one, nothing runs, and neither the
  scheduler nor the main loop ever starts it.
\<close>

theorem ready_slot_with_INT_MAX_is_not_selected:
  "reachable int_max_run \<and>
   status (process_records int_max_run ! 0) = READY \<and>
   remaining_runtime (process_records int_max_run ! 0) = INT_MAX \<and>
   running_process_index int_max_run = -1 \<and>
   find_min_runtime_process int_max_run = -1 \<and>
   scheduler e int_max_run = ([], int_max_run) \<and>
   main_tick e int_max_run = ([], int_max_run)"
proof -
  have "running_process_index int_max_run = -1"
    by (simp add: int_max_run_eq)
  then have "scheduler e int_max_run = ([], int_max_run)"
    by (simp add: scheduler_idle dispatch_min_none find_min_int_max_run)
  then show ?thesis
    using reachable_examples(2)
    by (simp add: main_tick_def find_min_int_max_run) (simp add: int_max_run_eq MAX_PROCESSES_def)
qed

text \<open>
  Apart from that case the selection is the one C2 describes: when some ready slot
  has a remaining runtime below \<open>INT_MAX\<close>, \<open>find_min_runtime_process\<close> returns the
  index \<open>k\<close> of a ready slot whose remaining runtime is at most that of every ready
  slot and strictly below that of every ready slot before it (so negative runtimes win,
  and among equal minima the lowest index); with no such slot, in particular with no
  ready slot at all, it returns -1.
\<close>

theorem find_min_selects_first_minimum:
  "((\<exists>j<MAX_PROCESSES. status (process_records s ! j) = READY \<and>
        remaining_runtime (process_records s ! j) < INT_MAX) \<longrightarrow>
      (\<exists>k<MAX_PROCESSES. find_min_runtime_process s = int k \<and>
         status (process_records s ! k) = READY \<and>
         (\<forall>j<MAX_PROCESSES. status (process_records s ! j) = READY \<longrightarrow>
            remaining_runtime (process_records s ! k) \<le> remaining_runtime (process_records s ! j)) \<and>
         (\<forall>j<k. status (process_records s ! j) = READY \<longrightarrow>
            remaining_runtime (process_records s ! k) < remaining_runtime (process_records s ! j)))) \<and>
   ((\<forall>j<MAX_PROCESSES. status (process_records s ! j) \<noteq> READY) \<longrightarrow>
      find_min_runtime_process s = -1)"
proof (intro conjI impI)
  assume "\<exists>j<MAX_PROCESSES. status (process_records s ! j) = READY \<and>
        remaining_runtime (process_records s ! j) < INT_MAX"
  from find_min_loop_some [OF this] obtain k where
    "min_ready (process_records s) MAX_PROCESSES k" "find_min_runtime_process s = int k"
    by (auto simp: find_min_runtime_process_def)
  then show "\<exists>k<MAX_PROCESSES. find_min_runtime_process s = int k \<and>
         status (process_records s ! k) = READY \<and>
         (\<forall>j<MAX_PROCESSES. status (process_records s ! j) = READY \<longrightarrow>
            remaining_runtime (process_records s ! k) \<le> remaining_runtime (process_records s ! j)) \<and>
         (\<forall>j<k. status (process_records s ! j) = READY \<longrightarrow>
            remaining_runtime (process_records s ! k) < remaining_runtime (process_records s ! j))"
    unfolding min_ready_def by blast
next
  assume "\<forall>j<MAX_PROCESSES. status (process_records s ! j) \<noteq> READY"
  then show "find_min_runtime_process s = -1"
    by (intro find_min_none) simp
qed

theorem find_min_selects_first_minimum_witness:
  "find_min_runtime_process sjf_example = 1 \<and> find_min_runtime_process initial_state = -1"
proof -
  have "1 < MAX_PROCESSES \<and> status (process_records sjf_example ! 1) = READY \<and>
      remaining_runtime (process_records sjf_example ! 1) < INT_MAX"
    using sjf_example_min_ready by (simp add: min_ready_def)
  with find_min_selects_first_minimum [of sjf_example] obtain k where
    k: "k < MAX_PROCESSES" "find_min_runtime_process sjf_example = int k"
      "status (process_records sjf_example ! k) = READY"
      "\<forall>j<MAX_PROCESSES. status (process_records sjf_example ! j) = READY \<longrightarrow>
         remaining_runtime (process_records sjf_example ! k)
           \<le> remaining_runtime (process_records sjf_example ! j)"
      "\<forall>j<k. status (process_records sjf_example ! j) = READY \<longrightarrow>
         remaining_runtime (process_records sjf_example ! k)
           < remaining_runtime (process_records sjf_example ! j)"
    by blast
  from k(4) sjf_example_min_ready
  have "remaining_runtime (process_records sjf_example ! k) < INT_MAX"
    unfolding min_ready_def by (meson le_less_trans)
  with k have "min_ready (process_records sjf_example) MAX_PROCESSES k"
    by (simp add: min_ready_def)
  from min_ready_unique [OF this sjf_example_min_ready] have "k = 1" .
  with k(2) have a: "find_min_runtime_process sjf_example = 1" by simp
  have "\<forall>j<MAX_PROCESSES. status (process_records initial_state ! j) \<noteq> READY"
    by (simp add: initial_state_fields unused_record_def)
  with find_min_selects_first_minimum [of initial_state]
  have "find_min_runtime_process initial_state = -1" by blast
  with a show ?thesis by simp
qed

text \<open>
  C3. For a \<open>run\<close> with valid arguments on the 64-slot table: the slot it takes is
  the first \<open>UNUSED\<close> one; when no slot is \<open>UNUSED\<close>, the first \<open>TERMINATED\<close> one.
  Whenever a slot is found, \<open>run\<close> goes on to \<open>fork\<close> and, when the fork gives the
  parent a process id, writes that id into the slot, which ends \<open>READY\<close> or
  \<open>RUNNING\<close>; with only \<open>TERMINATED\<close> slots that is slot 0. When every slot is
  \<open>RUNNING\<close>, \<open>READY\<close> or \<open>STOPPED\<close>, \<open>run\<close> prints "Maximum number of
  processes reached" and changes nothing, and that is the only case in which it
  prints just that.
\<close>

theorem run_takes_first_unused_else_first_terminated:
  assumes "4 \<le> length args" and "0 < atoi (args ! 3)"
    and "length (process_records s) = MAX_PROCESSES"
  shows
    "(\<forall>i<MAX_PROCESSES.
        status (process_records s ! i) = UNUSED \<and>
        (\<forall>j<i. status (process_records s ! j) \<noteq> UNUSED) \<longrightarrow> run_index s = int i) \<and>
     (\<forall>i<MAX_PROCESSES.
        (\<forall>j<MAX_PROCESSES. status (process_records s ! j) \<noteq> UNUSED) \<and>
        status (process_records s ! i) = TERMINATED \<and>
        (\<forall>j<i. status (process_records s ! j) \<noteq> TERMINATED) \<longrightarrow> run_index s = int i) \<and>
     (\<forall>i. run_index s = int i \<longrightarrow>
        hd (fst (perform_run e (Some args) s)) = Fork \<and>
        (0 < fork_ret e \<longrightarrow>
           pid (process_records (snd (perform_run e (Some args) s)) ! i) = fork_ret e \<and>
           (status (process_records (snd (perform_run e (Some args) s)) ! i) = READY \<or>
            status (process_records (snd (perform_run e (Some args) s)) ! i) = RUNNING))) \<and>
     ((\<forall>j<MAX_PROCESSES. status (process_records s ! j) = TERMINATED) \<and> 0 < fork_ret e \<longrightarrow>
        pid (process_records (snd (perform_run e (Some args) s)) ! 0) = fork_ret e) \<and>
     ((\<forall>j<MAX_PROCESSES. status (process_records s ! j) \<noteq> UNUSED \<and>
                           status (process_records s ! j) \<noteq> TERMINATED) \<longrightarrow>
        perform_run e (Some args) s = ([Print Maximum_number_of_processes_reached], s)) \<and>
     (fst (perform_run e (Some args) s) = [Print Maximum_number_of_processes_reached] \<longrightarrow>
        (\<forall>j<MAX_PROCESSES. status (process_records s ! j) \<noteq> UNUSED \<and>
                           status (process_records s ! j) \<noteq> TERMINATED))"
proof -
  have stored: "hd (fst (perform_run e (Some args) s)) = Fork \<and>
        (0 < fork_ret e \<longrightarrow>
           pid (process_records (snd (perform_run e (Some args) s)) ! i) = fork_ret e \<and>
           (status (process_records (snd (perform_run e (Some args) s)) ! i) = READY \<or>
            status (process_records (snd (perform_run e (Some args) s)) ! i) = RUNNING))"
    if "run_index s = int i" for i
    using perform_run_forks [OF assms(1,2) that, of e]
      perform_run_stores(1,2) [OF assms(1,2) that _ assms(3)]
    by blast
  have all_term: "pid (process_records (snd (perform_run e (Some args) s)) ! 0) = fork_ret e"
    if "\<forall>j<MAX_PROCESSES. status (process_records s ! j) = TERMINATED" "0 < fork_ret e"
  proof -
    from that(1) have "run_index s = int 0"
      by (intro run_index_terminated) (auto simp: MAX_PROCESSES_def)
    from stored [OF this] that(2) show ?thesis by blast
  qed
  have only: "\<forall>j<MAX_PROCESSES. status (process_records s ! j) \<noteq> UNUSED \<and>
                           status (process_records s ! j) \<noteq> TERMINATED"
    if m: "fst (perform_run e (Some args) s) = [Print Maximum_number_of_processes_reached]"
  proof (cases "run_index s < 0")
    case True
    then show ?thesis by (auto dest: run_index_negD)
  next
    case False
    then have "run_index s = int (nat (run_index s))" by simp
    from perform_run_forks [OF assms(1,2) this, of e] m show ?thesis by simp
  qed
  show ?thesis
    using stored all_term only
    by (intro conjI allI impI)
       (auto intro: run_index_unused run_index_terminated
          intro!: perform_run_full [OF assms(1,2)] run_index_full)
qed

theorem run_takes_first_unused_else_first_terminated_witness:
  "run_index initial_state = 0 \<and>
   pid (process_records
         (snd (perform_run env_ok (Some [''run'', ''./w'', ''x'', ''5'']) initial_state)) ! 0) = 100 \<and>
   pid (process_records
         (snd (perform_run env_ok (Some [''run'', ''./w'', ''x'', ''5'']) (full_table TERMINATED))) ! 0)
     = 100 \<and>
   perform_run env_ok (Some [''run'', ''./w'', ''x'', ''5'']) (full_table READY) =
     ([Print Maximum_number_of_processes_reached], full_table READY)"
proof -
  let ?args = "[''run'', ''./w'', ''x'', ''5'']"
  have v: "4 \<le> length ?args" "0 < atoi (?args ! 3)"
    by (simp_all add: atoi_5)
  have f: "0 < fork_ret env_ok"
    by (simp add: env_ok_def)
  note th_init = run_takes_first_unused_else_first_terminated
    [OF v initial_state_fields(3), of env_ok]
  note th_term = run_takes_first_unused_else_first_terminated
    [OF v full_table_length [of TERMINATED], of env_ok]
  note th_ready = run_takes_first_unused_else_first_terminated
    [OF v full_table_length [of READY], of env_ok]
  have "0 < MAX_PROCESSES \<and> status (process_records initial_state ! 0) = UNUSED \<and>
      (\<forall>j<0. status (process_records initial_state ! j) \<noteq> UNUSED)"
    by (simp add: initial_state_fields MAX_PROCESSES_def unused_record_def)
  with th_init have a: "run_index initial_state = int 0"
    by blast
  with th_init f have b: "pid (process_records
         (snd (perform_run env_ok (Some ?args) initial_state)) ! 0) = fork_ret env_ok"
    by blast
  have "\<forall>j<MAX_PROCESSES. status (process_records (full_table TERMINATED) ! j) = TERMINATED"
    by (simp add: full_table_nth)
  with th_term f have c: "pid (process_records
         (snd (perform_run env_ok (Some ?args) (full_table TERMINATED))) ! 0) = fork_ret env_ok"
    by blast
  have "\<forall>j<MAX_PROCESSES. status (process_records (full_table READY) ! j) \<noteq> UNUSED \<and>
      status (process_records (full_table READY) ! j) \<noteq> TERMINATED"
    by (simp add: full_table_nth)
  with th_ready have d: "perform_run env_ok (Some ?args) (full_table READY) =
     ([Print Maximum_number_of_processes_reached], full_table READY)"
    by blast
  from a b c d show ?thesis
    by (simp add: env_ok_def)
qed

text \<open>
  C4 (as amended). The budget of \<open>run\<close> is \<open>args[3]\<close>, the fourth token of the
  command (the command name, the path and exactly one argument come before it), read
  by \<open>atoi\<close>; tokens after it are not looked at. \<open>run\<close> is rejected with a diagnostic,
  no \<open>fork\<close> and no change of the state when the array is \<open>NULL\<close>, when there are
  fewer than four tokens, or when \<open>atoi(args[3])\<close> is not positive. Otherwise, when the
  fork succeeds, the new slot \<open>i\<close> holds \<open>atoi(args[3])\<close> as its remaining runtime
  (provided no time passes between the start of the new process and the scheduler's
  accounting, which would already be charged to it).
\<close>

theorem run_budget_is_fourth_token:
  "perform_run e None s = ([Print Invalid_arguments_for_perform_run], s) \<and>
   (length args < 4 \<longrightarrow>
      perform_run e (Some args) s = ([Print Invalid_arguments_for_perform_run], s)) \<and>
   (4 \<le> length args \<and> atoi (args ! 3) \<le> 0 \<longrightarrow>
      perform_run e (Some args) s = ([Print Invalid_remaining_runtime_for_perform_run], s)) \<and>
   (4 \<le> length args \<and> 0 < atoi (args ! 3) \<and> 0 < fork_ret e \<and> run_index s = int i \<and>
    length (process_records s) = MAX_PROCESSES \<and> running_process_index s \<noteq> int i \<and>
    (running_process_index s < 0 \<longrightarrow> sched_fold_time e \<le> cmd_time e) \<longrightarrow>
      remaining_runtime (process_records (snd (perform_run e (Some args) s)) ! i) =
        atoi (args ! 3))"
  using perform_run_missing [of args e s] perform_run_bad_runtime [of args e s]
    perform_run_stores(3) [of args s i e]
  by (simp add: perform_run.simps(1))

theorem run_budget_is_fourth_token_witness:
  "perform_run env_ok (Some [''run'', ''./w'', ''10'']) initial_state =
     ([Print Invalid_arguments_for_perform_run], initial_state) \<and>
   perform_run env_ok (Some [''run'', ''./w'', ''x'', ''y'', ''10'']) initial_state =
     ([Print Invalid_remaining_runtime_for_perform_run], initial_state) \<and>
   remaining_runtime (process_records
     (snd (perform_run env_ok (Some [''run'', ''./w'', ''x'', ''5'', ''7'']) initial_state)) ! 0) = 5"
proof -
  have a: "length [''run'', ''./w'', ''10''] < 4"
    by simp
  have b: "4 \<le> length [''run'', ''./w'', ''x'', ''y'', ''10''] \<and>
      atoi ([''run'', ''./w'', ''x'', ''y'', ''10''] ! 3) \<le> 0"
    by (simp add: atoi_examples)
  have c: "4 \<le> length [''run'', ''./w'', ''x'', ''5'', ''7''] \<and>
      0 < atoi ([''run'', ''./w'', ''x'', ''5'', ''7''] ! 3) \<and> 0 < fork_ret env_ok \<and>
      run_index initial_state = int 0 \<and>
      length (process_records initial_state) = MAX_PROCESSES \<and>
      running_process_index initial_state \<noteq> int 0 \<and>
      (running_process_index initial_state < 0 \<longrightarrow> sched_fold_time env_ok \<le> cmd_time env_ok)"
    by (simp add: atoi_5 run_index_initial initial_state_fields env_ok_def)
  have v: "atoi ([''run'', ''./w'', ''x'', ''5'', ''7''] ! 3) = 5"
    by (simp add: atoi_5)
  from run_budget_is_fourth_token [of env_ok initial_state "[''run'', ''./w'', ''10'']"] a
  have 1: "perform_run env_ok (Some [''run'', ''./w'', ''10'']) initial_state =
     ([Print Invalid_arguments_for_perform_run], initial_state)"
    by blast
  from run_budget_is_fourth_token [of env_ok initial_state "[''run'', ''./w'', ''x'', ''y'', ''10'']"] b
  have 2: "perform_run env_ok (Some [''run'', ''./w'', ''x'', ''y'', ''10'']) initial_state =
     ([Print Invalid_remaining_runtime_for_perform_run], initial_state)"
    by blast
  from run_budget_is_fourth_token
    [of env_ok initial_state "[''run'', ''./w'', ''x'', ''5'', ''7'']" 0] c
  have "remaining_runtime (process_records
     (snd (perform_run env_ok (Some [''run'', ''./w'', ''x'', ''5'', ''7'']) initial_state)) ! 0) =
     atoi ([''run'', ''./w'', ''x'', ''5'', ''7''] ! 3)"
    by blast
  with v 1 2 show ?thesis by simp
qed

text \<open>
  C4 as stated fails: in \<open>run ./w x 5 7\<close> the last token is 7 and the budget stored
  is 5; and \<open>run ./w x y 10\<close>, whose last token is the positive integer 10, is
  rejected because \<open>atoi\<close> of its fourth token is 0.
\<close>

theorem run_budget_is_not_the_last_token:
  "atoi (last [''run'', ''./w'', ''x'', ''5'', ''7'']) = 7 \<and>
   remaining_runtime (process_records
     (snd (perform_run env_ok (Some [''run'', ''./w'', ''x'', ''5'', ''7'']) initial_state)) ! 0) = 5 \<and>
   atoi (last [''run'', ''./w'', ''x'', ''y'', ''10'']) = 10 \<and>
   perform_run env_ok (Some [''run'', ''./w'', ''x'', ''y'', ''10'']) initial_state =
     ([Print Invalid_remaining_runtime_for_perform_run], initial_state)"
proof -
  have "remaining_runtime (process_records
     (snd (perform_run env_ok (Some [''run'', ''./w'', ''x'', ''5'', ''7'']) initial_state)) ! 0) =
     atoi ([''run'', ''./w'', ''x'', ''5'', ''7''] ! 3)"
    by (rule perform_run_stores(3) [where i = 0])
       (simp_all add: atoi_5 run_index_initial initial_state_fields env_ok_def)
  moreover have "perform_run env_ok (Some [''run'', ''./w'', ''x'', ''y'', ''10'']) initial_state =
     ([Print Invalid_remaining_runtime_for_perform_run], initial_state)"
    by (rule perform_run_bad_runtime) (simp_all add: atoi_examples)
  ultimately show ?thesis
    by (simp add: atoi_5 atoi_examples)
qed

text \<open>
  C5. A scheduler pass that finds a running process (\<open>running_process_index >= 0\<close>)
  and whose \<open>SIGSTOP\<close> to it fails reports the failure and returns: the only events
  are that \<open>kill\<close> and the diagnostic, no \<open>SIGCONT\<close> is sent, and the whole state
  (every status and remaining runtime, the running index, the clock) is as before.
\<close>

theorem scheduler_aborts_on_failed_suspend:
  assumes "0 \<le> running_process_index s" and "\<not> sched_stop_ok e"
  shows "scheduler e s =
           ([Kill (pid (process_records s ! nat (running_process_index s))) SIGSTOP,
             Print First_Kill_failed_in_scheduler], s)"
  using assms by (simp add: scheduler_def)

theorem scheduler_aborts_on_failed_suspend_witness:
  "reachable one_running \<and> 0 \<le> running_process_index one_running \<and>
   \<not> sched_stop_ok env_stop_fails \<and>
   status (process_records one_running ! 0) = RUNNING \<and>
   scheduler env_stop_fails one_running =
     ([Kill 100 SIGSTOP, Print First_Kill_failed_in_scheduler], one_running)"
proof -
  have h: "0 \<le> running_process_index one_running" "\<not> sched_stop_ok env_stop_fails"
    by (simp_all add: one_running_eq env_stop_fails_def env_ok_def)
  have "pid (process_records one_running ! nat (running_process_index one_running)) = 100"
    "status (process_records one_running ! 0) = RUNNING"
    by (simp_all add: one_running_eq MAX_PROCESSES_def)
  with h scheduler_aborts_on_failed_suspend [OF h] reachable_examples(1) show ?thesis by simp
qed

text \<open>
  C6 (as amended). \<open>kill\<close> with the id of a \<open>TERMINATED\<close> slot that is the first
  slot of the table holding that id, which is the slot the handler's lookup finds.
  Then \<open>perform_kill\<close> prints "already terminated", calls no \<open>kill\<close>, and leaves
  the whole state (table, running index, clock) as it was: in any state for a positive
  id, and in every reachable state, where the id of a terminated slot is always
  positive.
\<close>

theorem kill_of_terminated_changes_nothing:
  "(0 < p \<and> i < MAX_PROCESSES \<and> pid (process_records s ! i) = p \<and>
    (\<forall>j<i. pid (process_records s ! j) \<noteq> p) \<and>
    status (process_records s ! i) = TERMINATED \<longrightarrow>
      perform_kill e p s = ([Print (Process_is_already_terminated p)], s)) \<and>
   (reachable s \<and> i < MAX_PROCESSES \<and> status (process_records s ! i) = TERMINATED \<and>
    (\<forall>j<i. pid (process_records s ! j) \<noteq> pid (process_records s ! i)) \<longrightarrow>
      perform_kill e (pid (process_records s ! i)) s =
        ([Print (Process_is_already_terminated (pid (process_records s ! i)))], s))"
proof -
  have general: "perform_kill e p s = ([Print (Process_is_already_terminated p)], s)"
    if "0 < p" "i < MAX_PROCESSES" "pid (process_records s ! i) = p"
      "\<forall>j<i. pid (process_records s ! j) \<noteq> p" "status (process_records s ! i) = TERMINATED"
    for p
    using that by (simp add: perform_kill_def find_pid_eq)
  have "0 < pid (process_records s ! i)"
    if "reachable s" "i < MAX_PROCESSES" "status (process_records s ! i) = TERMINATED"
    using that by (intro reachable_used_pid) simp_all
  with general show ?thesis by blast
qed

theorem kill_of_terminated_changes_nothing_witness:
  "reachable one_terminated \<and> pid (process_records one_terminated ! 0) = 100 \<and>
   status (process_records one_terminated ! 0) = TERMINATED \<and>
   perform_kill env_ok 100 one_terminated =
     ([Print (Process_is_already_terminated 100)], one_terminated)"
proof -
  have r: "reachable one_terminated"
    by (rule reachable_examples)
  have h: "0 < MAX_PROCESSES \<and> status (process_records one_terminated ! 0) = TERMINATED \<and>
      (\<forall>j<0. pid (process_records one_terminated ! j) \<noteq> pid (process_records one_terminated ! 0))"
    by (simp add: one_terminated_eq MAX_PROCESSES_def)
  have p: "pid (process_records one_terminated ! 0) = 100"
    by (simp add: one_terminated_eq MAX_PROCESSES_def)
  from kill_of_terminated_changes_nothing [of _ 0 one_terminated env_ok] r h
  have "perform_kill env_ok (pid (process_records one_terminated ! 0)) one_terminated =
      ([Print (Process_is_already_terminated (pid (process_records one_terminated ! 0)))],
       one_terminated)"
    by blast
  with r h p show ?thesis by simp
qed

text \<open>
  C6 as stated fails when a process id is given out again. With all 64 slots taken,
  slots 1 and 0 are killed; the next \<open>run\<close> takes slot 0 and its process gets the id
  1001 that slot 1 still holds. Slot 1 is \<open>TERMINATED\<close> with id 1001, yet \<open>kill 1001\<close>
  finds slot 0 first: it sends \<open>SIGTERM\<close>, terminates slot 0 and starts the next
  process.
\<close>

theorem kill_with_reused_id_of_terminated_slot:
  "reachable reused_pid \<and>
   status (process_records reused_pid ! 1) = TERMINATED \<and>
   pid (process_records reused_pid ! 1) = 1001 \<and>
   process_records reused_pid ! 0 = \<lparr>pid = 1001, status = RUNNING, remaining_runtime = 1\<rparr> \<and>
   fst (perform_kill env_ok 1001 reused_pid) = [Kill 1001 SIGTERM, Kill 1002 SIGCONT] \<and>
   status (process_records (snd (perform_kill env_ok 1001 reused_pid)) ! 0) = TERMINATED \<and>
   running_process_index (snd (perform_kill env_ok 1001 reused_pid)) = 2 \<and>
   perform_kill env_ok 1001 reused_pid \<noteq>
     ([Print (Process_is_already_terminated 1001)], reused_pid)"
  using reachable_reused_pid
  by (simp add: reused_pid_eq kill_of_reused_pid MAX_PROCESSES_def)
     (simp add: reused_slot_def worker_def)

text \<open>
  C7. The runtime accounting (\<open>fold_elapsed\<close>, which the main loop applies to the
  running process at lines 516 to 524) does nothing to the table and the clock when
  \<open>elapsed = current_time - start_time\<close> is not positive (it only stores the elapsed
  time in the variable \<open>elapsed_time\<close>), and a second application then changes
  nothing at all; and applying it twice with
  the same clock reading gives the same remaining runtimes and the same \<open>start_time\<close>
  as applying it once, whatever the elapsed time was, for \<open>fold_elapsed\<close> itself and
  for two passes of the main loop's update.
\<close>

theorem accounting_idempotent_without_elapsed_time:
  "(t - start_time s \<le> 0 \<longrightarrow>
      process_records (fold_elapsed t i s) = process_records s \<and>
      start_time (fold_elapsed t i s) = start_time s \<and>
      fold_elapsed t i (fold_elapsed t i s) = fold_elapsed t i s) \<and>
   process_records (fold_elapsed t i (fold_elapsed t i s)) = process_records (fold_elapsed t i s) \<and>
   start_time (fold_elapsed t i (fold_elapsed t i s)) = start_time (fold_elapsed t i s) \<and>
   (0 \<le> running_process_index s \<longrightarrow>
      process_records (snd (main_tick e (snd (main_tick e s)))) =
        process_records (snd (main_tick e s)))"
  by (simp add: fold_elapsed_def main_tick_def Let_def)

theorem accounting_idempotent_without_elapsed_time_witness:
  "1000 - start_time one_running \<le> 0 \<and>
   process_records (fold_elapsed 1000 0 one_running) = process_records one_running \<and>
   0 \<le> running_process_index one_running \<and>
   process_records (snd (main_tick env_ok (snd (main_tick env_ok one_running)))) =
     process_records (snd (main_tick env_ok one_running))"
proof -
  have h: "1000 - start_time one_running \<le> 0" "0 \<le> running_process_index one_running"
    by (simp_all add: one_running_eq)
  with accounting_idempotent_without_elapsed_time [of 1000 one_running 0 env_ok]
  show ?thesis by simp
qed

text \<open>
  C8. \<open>exit\<close> on the 64-slot table: \<open>perform_exit\<close> goes through the slots in index
  order; for each slot that is neither \<open>UNUSED\<close> nor \<open>TERMINATED\<close> it calls
  \<open>kill(pid, SIGTERM)\<close>, prints a diagnostic when that fails, and sets the status to
  \<open>TERMINATED\<close> either way; other slots get no signal and stay as they are; then it
  prints its farewell. The resulting state does not depend on which signals failed.
  The main loop leaves its loop right after (the flag), so the manager stops.
\<close>

theorem exit_terminates_every_live_slot:
  assumes "length (process_records s) = MAX_PROCESSES"
  shows
    "perform_exit e s =
       (concat (map (exit_events e (process_records s)) [0..<MAX_PROCESSES])
          @ [Print Exiting_the_process_manager],
        s\<lparr>process_records := map terminate (process_records s)\<rparr>) \<and>
     (\<forall>i<MAX_PROCESSES. live (process_records s ! i) \<longrightarrow>
        Kill (pid (process_records s ! i)) SIGTERM \<in> set (fst (perform_exit e s)) \<and>
        process_records (snd (perform_exit e s)) ! i =
          (process_records s ! i)\<lparr>status := TERMINATED\<rparr> \<and>
        (\<not> exit_kill_ok e i \<longrightarrow>
           Print Kill_failed_in_perform_exit \<in> set (fst (perform_exit e s)))) \<and>
     (\<forall>i<MAX_PROCESSES. \<not> live (process_records s ! i) \<longrightarrow>
        process_records (snd (perform_exit e s)) ! i = process_records s ! i) \<and>
     (\<forall>p. Kill p SIGTERM \<in> set (fst (perform_exit e s)) \<longrightarrow>
        (\<exists>i<MAX_PROCESSES. live (process_records s ! i) \<and> pid (process_records s ! i) = p)) \<and>
     snd (perform_exit e2 s) = snd (perform_exit e s) \<and>
     main_iteration e (Some (''exit'' # rest)) s =
       Some (fst (perform_exit e s), snd (perform_exit e s), True)"
proof -
  note eq = perform_exit_eq [OF assms]
  have sent: "Kill (pid (process_records s ! i)) SIGTERM \<in> set (fst (perform_exit e s))"
    if "i < MAX_PROCESSES" "live (process_records s ! i)" for i
  proof -
    have "Kill (pid (process_records s ! i)) SIGTERM \<in> set (exit_events e (process_records s) i)"
      using that by (simp add: exit_events_def)
    with that(1) show ?thesis
      by (auto simp: eq)
  qed
  have logged: "Print Kill_failed_in_perform_exit \<in> set (fst (perform_exit e s))"
    if "i < MAX_PROCESSES" "live (process_records s ! i)" "\<not> exit_kill_ok e i" for i
  proof -
    have "Print Kill_failed_in_perform_exit \<in> set (exit_events e (process_records s) i)"
      using that by (simp add: exit_events_def)
    with that(1) show ?thesis
      by (auto simp: eq)
  qed
  have only: "\<exists>i<MAX_PROCESSES. live (process_records s ! i) \<and> pid (process_records s ! i) = p"
    if "Kill p SIGTERM \<in> set (fst (perform_exit e s))" for p
    using that by (auto simp: eq exit_events_def split: if_splits)
  have main: "main_iteration e (Some (''exit'' # rest)) s =
       Some (fst (perform_exit e s), snd (perform_exit e s), True)"
    by (simp add: main_iteration_def arg_def split: prod.splits)
  show ?thesis
    using sent logged only main assms
    by (simp add: eq terminate_def)
qed

theorem exit_terminates_every_live_slot_witness:
  "reachable two_processes \<and> \<not> exit_kill_ok env_exit_kill_fails 0 \<and>
   Print Kill_failed_in_perform_exit
     \<in> set (fst (perform_exit env_exit_kill_fails two_processes)) \<and>
   Kill 100 SIGTERM \<in> set (fst (perform_exit env_exit_kill_fails two_processes)) \<and>
   Kill 101 SIGTERM \<in> set (fst (perform_exit env_exit_kill_fails two_processes)) \<and>
   process_records (snd (perform_exit env_exit_kill_fails two_processes)) ! 0 =
     \<lparr>pid = 100, status = TERMINATED, remaining_runtime = 5\<rparr> \<and>
   process_records (snd (perform_exit env_exit_kill_fails two_processes)) ! 1 =
     \<lparr>pid = 101, status = TERMINATED, remaining_runtime = 9\<rparr> \<and>
   process_records (snd (perform_exit env_exit_kill_fails two_processes)) ! 2 = unused_record \<and>
   main_iteration env_exit_kill_fails (Some [''exit'']) two_processes =
     Some (fst (perform_exit env_exit_kill_fails two_processes),
           snd (perform_exit env_exit_kill_fails two_processes), True)"
proof -
  note th = exit_terminates_every_live_slot
    [OF two_processes_fields(1), of env_exit_kill_fails env_exit_kill_fails "[]"]
  have l: "0 < MAX_PROCESSES \<and> live (process_records two_processes ! 0)"
    "1 < MAX_PROCESSES \<and> live (process_records two_processes ! 1)"
    "2 < MAX_PROCESSES \<and> \<not> live (process_records two_processes ! 2)"
    by (simp_all add: two_processes_eq MAX_PROCESSES_def live_def unused_record_def)
  have v: "pid (process_records two_processes ! 0) = 100"
    "pid (process_records two_processes ! 1) = 101"
    "(process_records two_processes ! 0)\<lparr>status := TERMINATED\<rparr> =
       \<lparr>pid = 100, status = TERMINATED, remaining_runtime = 5\<rparr>"
    "(process_records two_processes ! 1)\<lparr>status := TERMINATED\<rparr> =
       \<lparr>pid = 101, status = TERMINATED, remaining_runtime = 9\<rparr>"
    "process_records two_processes ! 2 = unused_record"
    by (simp_all add: two_processes_eq MAX_PROCESSES_def)
  have f: "\<not> exit_kill_ok env_exit_kill_fails 0"
    by (simp add: env_exit_kill_fails_def)
  from th l(1) f have
    "Print Kill_failed_in_perform_exit
       \<in> set (fst (perform_exit env_exit_kill_fails two_processes)) \<and>
     Kill (pid (process_records two_processes ! 0)) SIGTERM
       \<in> set (fst (perform_exit env_exit_kill_fails two_processes)) \<and>
     process_records (snd (perform_exit env_exit_kill_fails two_processes)) ! 0 =
       (process_records two_processes ! 0)\<lparr>status := TERMINATED\<rparr>"
    by blast
  moreover from th l(2) have
    "Kill (pid (process_records two_processes ! 1)) SIGTERM
       \<in> set (fst (perform_exit env_exit_kill_fails two_processes)) \<and>
     process_records (snd (perform_exit env_exit_kill_fails two_processes)) ! 1 =
       (process_records two_processes ! 1)\<lparr>status := TERMINATED\<rparr>"
    by blast
  moreover from th l(3) have
    "process_records (snd (perform_exit env_exit_kill_fails two_processes)) ! 2 =
       process_records two_processes ! 2"
    by blast
  moreover from th have
    "main_iteration env_exit_kill_fails (Some [''exit'']) two_processes =
     Some (fst (perform_exit env_exit_kill_fails two_processes),
           snd (perform_exit env_exit_kill_fails two_processes), True)"
    by blast
  ultimately show ?thesis
    using f reachable_examples(4) unfolding v by blast
qed

text \<open>
  C9. \<open>kill\<close> of a slot \<open>i\<close> that is found for the id and is not terminated, when
  its \<open>SIGTERM\<close> succeeds and time has passed since \<open>start_time\<close>: the elapsed time
  is subtracted (in \<open>int\<close> arithmetic) from the remaining runtime of the killed slot,
  whether or not it is the running one. When another slot \<open>r\<close> is the running one,
  the killed slot is charged time it never ran, \<open>start_time\<close> is reset to now, slot
  \<open>r\<close> is not charged, and at the next update of the main loop \<open>r\<close> is charged only
  the time since the kill, where without the kill it would have been charged the time
  since \<open>start_time\<close>.
\<close>

theorem kill_charges_the_killed_slot:
  assumes "0 < p" and "i < MAX_PROCESSES" and "length (process_records s) = MAX_PROCESSES"
    and "pid (process_records s ! i) = p"
    and "\<forall>j<i. pid (process_records s ! j) \<noteq> p"
    and "status (process_records s ! i) \<noteq> TERMINATED"
    and "cmd_kill_ok e"
    and "start_time s < cmd_time e"
  shows "remaining_runtime (process_records (snd (perform_kill e p s)) ! i) =
           to_int (remaining_runtime (process_records s ! i) - (cmd_time e - start_time s)) \<and>
         (running_process_index s = int r \<and> r < MAX_PROCESSES \<and> r \<noteq> i \<longrightarrow>
            perform_kill e p s =
              ([Kill p SIGTERM],
               s\<lparr>process_records := (process_records s)
                    [i := (process_records s ! i)
                       \<lparr>status := TERMINATED,
                        remaining_runtime :=
                          to_int (remaining_runtime (process_records s ! i)
                                    - (cmd_time e - start_time s))\<rparr>],
                 start_time := cmd_time e,
                 elapsed_time := cmd_time e - start_time s\<rparr>) \<and>
            remaining_runtime (process_records (snd (perform_kill e p s)) ! r) =
              remaining_runtime (process_records s ! r) \<and>
            (cmd_time e < tick_time e2 \<longrightarrow>
               remaining_runtime
                 (process_records (snd (main_tick e2 (snd (perform_kill e p s)))) ! r) =
                 to_int (remaining_runtime (process_records s ! r) - (tick_time e2 - cmd_time e)) \<and>
               remaining_runtime (process_records (snd (main_tick e2 s)) ! r) =
                 to_int (remaining_runtime (process_records s ! r) - (tick_time e2 - start_time s))))"
proof -
  let ?k = "fold_elapsed (cmd_time e) i (set_status i TERMINATED s)"
  have f: "find_pid p s = Some i"
    using assms by (simp add: find_pid_eq)
  have st: "?k =
      s\<lparr>process_records := (process_records s)
                 [i := (process_records s ! i)
                    \<lparr>status := TERMINATED,
                     remaining_runtime :=
                       to_int (remaining_runtime (process_records s ! i)
                                 - (cmd_time e - start_time s))\<rparr>],
              start_time := cmd_time e,
              elapsed_time := cmd_time e - start_time s\<rparr>"
    using assms by (simp add: fold_elapsed_def set_status_def Let_def)
  have charged: "remaining_runtime (process_records ?k ! i) =
      to_int (remaining_runtime (process_records s ! i) - (cmd_time e - start_time s))"
    using assms by (simp add: st)
  have 1: "remaining_runtime (process_records (snd (perform_kill e p s)) ! i) =
           to_int (remaining_runtime (process_records s ! i) - (cmd_time e - start_time s))"
  proof (cases "running_process_index s = int i")
    case True
    have "remaining_runtime
        (process_records (snd (scheduler e (?k\<lparr>running_process_index := -1\<rparr>))) ! i) =
        remaining_runtime (process_records (?k\<lparr>running_process_index := -1\<rparr>) ! i)"
      by (rule scheduler_remaining) simp
    with charged True f assms show ?thesis
      by (simp add: perform_kill_running)
  next
    case False
    with charged f assms show ?thesis
      by (simp add: perform_kill_other)
  qed
  have 2: "perform_kill e p s = ([Kill p SIGTERM], ?k)"
    if "running_process_index s = int r" "r \<noteq> i"
    using assms f that by (intro perform_kill_other) auto
  show ?thesis
    using 1 2 assms unfolding st
    by (auto simp: main_tick_def fold_elapsed_def Let_def)
qed

theorem kill_charges_the_killed_slot_witness:
  "reachable two_processes \<and>
   perform_kill env_later 101 two_processes =
     ([Kill 101 SIGTERM],
      \<lparr>process_records = (replicate MAX_PROCESSES unused_record)
        [0 := \<lparr>pid = 100, status = RUNNING, remaining_runtime = 5\<rparr>,
         1 := \<lparr>pid = 101, status = TERMINATED, remaining_runtime = 6\<rparr>],
      running_process_index = 0, start_time = 1003, elapsed_time = 3\<rparr>) \<and>
   remaining_runtime
     (process_records (snd (main_tick env_later (snd (perform_kill env_later 101 two_processes)))) ! 0)
     = 4 \<and>
   remaining_runtime (process_records (snd (main_tick env_later two_processes)) ! 0) = 1"
proof -
  have h: "(0::int) < 101" "1 < MAX_PROCESSES"
    "length (process_records two_processes) = MAX_PROCESSES"
    "pid (process_records two_processes ! 1) = 101"
    "\<forall>j<1. pid (process_records two_processes ! j) \<noteq> 101"
    "status (process_records two_processes ! 1) \<noteq> TERMINATED"
    "cmd_kill_ok env_later"
    "start_time two_processes < cmd_time env_later"
    by (simp_all add: two_processes_eq env_later_def env_ok_def MAX_PROCESSES_def)
  have r: "running_process_index two_processes = int 0 \<and> 0 < MAX_PROCESSES \<and> 0 \<noteq> (1::nat)"
    by (simp add: two_processes_eq MAX_PROCESSES_def)
  have t: "cmd_time env_later < tick_time env_later"
    by (simp add: env_later_def env_ok_def)
  note th = kill_charges_the_killed_slot [OF h, of 0 env_later]
  have v: "two_processes
      \<lparr>process_records := (process_records two_processes)
           [1 := (process_records two_processes ! 1)
              \<lparr>status := TERMINATED,
               remaining_runtime :=
                 to_int (remaining_runtime (process_records two_processes ! 1)
                           - (cmd_time env_later - start_time two_processes))\<rparr>],
        start_time := cmd_time env_later,
        elapsed_time := cmd_time env_later - start_time two_processes\<rparr> =
      \<lparr>process_records = (replicate MAX_PROCESSES unused_record)
        [0 := \<lparr>pid = 100, status = RUNNING, remaining_runtime = 5\<rparr>,
         1 := \<lparr>pid = 101, status = TERMINATED, remaining_runtime = 6\<rparr>],
      running_process_index = 0, start_time = 1003, elapsed_time = 3\<rparr>"
    by (simp add: two_processes_eq env_later_def env_ok_def MAX_PROCESSES_def to_int_def)
  from th r have "perform_kill env_later 101 two_processes =
     ([Kill 101 SIGTERM],
      two_processes
      \<lparr>process_records := (process_records two_processes)
           [1 := (process_records two_processes ! 1)
              \<lparr>status := TERMINATED,
               remaining_runtime :=
                 to_int (remaining_runtime (process_records two_processes ! 1)
                           - (cmd_time env_later - start_time two_processes))\<rparr>],
        start_time := cmd_time env_later,
        elapsed_time := cmd_time env_later - start_time two_processes\<rparr>)"
    by blast
  then have a: "perform_kill env_later 101 two_processes =
     ([Kill 101 SIGTERM],
      \<lparr>process_records = (replicate MAX_PROCESSES unused_record)
        [0 := \<lparr>pid = 100, status = RUNNING, remaining_runtime = 5\<rparr>,
         1 := \<lparr>pid = 101, status = TERMINATED, remaining_runtime = 6\<rparr>],
      running_process_index = 0, start_time = 1003, elapsed_time = 3\<rparr>)"
    by (simp only: v)
  have "remaining_runtime
     (process_records (snd (main_tick env_later (snd (perform_kill env_later 101 two_processes)))) ! 0)
     = to_int (remaining_runtime (process_records two_processes ! 0)
                 - (tick_time env_later - cmd_time env_later))"
    using th r t by blast
  also have "\<dots> = 4"
    by (simp add: two_processes_eq env_later_def env_ok_def MAX_PROCESSES_def to_int_def)
  finally have b: "remaining_runtime
     (process_records (snd (main_tick env_later (snd (perform_kill env_later 101 two_processes)))) ! 0)
     = 4" .
  have "remaining_runtime (process_records (snd (main_tick env_later two_processes)) ! 0)
     = to_int (remaining_runtime (process_records two_processes ! 0)
                 - (tick_time env_later - start_time two_processes))"
    using th r t by blast
  also have "\<dots> = 1"
    by (simp add: two_processes_eq env_later_def env_ok_def MAX_PROCESSES_def to_int_def)
  finally have c: "remaining_runtime (process_records (snd (main_tick env_later two_processes)) ! 0)
     = 1" .
  from a b c reachable_examples(4) show ?thesis by blast
qed

text \<open>
  C10. When \<open>fork\<close> fails in \<open>perform_run\<close> (arguments valid, a slot \<open>i\<close>
  found), the handler prints its diagnostic and returns with the whole state as it
  was; slot \<open>i\<close> is still \<open>UNUSED\<close> or \<open>TERMINATED\<close> and is the slot a later
  \<open>run\<close> finds.
\<close>

theorem run_leaves_state_on_fork_failure:
  assumes "fork_ret e < 0"
    and "4 \<le> length args" and "0 < atoi (args ! 3)" and "run_index s = int i"
  shows "perform_run e (Some args) s = ([Fork, Print Fork_failed_in_perform_run], s) \<and>
         i < MAX_PROCESSES \<and>
         (status (process_records s ! i) = UNUSED \<or> status (process_records s ! i) = TERMINATED) \<and>
         run_index (snd (perform_run e (Some args) s)) = int i"
proof -
  have "perform_run e (Some args) s = ([Fork, Print Fork_failed_in_perform_run], s)"
    using assms by (simp add: perform_run.simps arg_def)
  with run_index_D [OF assms(4)] assms(4) show ?thesis by simp
qed

theorem run_leaves_state_on_fork_failure_witness:
  "fork_ret env_fork_fails < 0 \<and>
   perform_run env_fork_fails (Some [''run'', ''./w'', ''x'', ''5'']) initial_state =
     ([Fork, Print Fork_failed_in_perform_run], initial_state) \<and>
   status (process_records initial_state ! 0) = UNUSED \<and>
   run_index (snd (perform_run env_fork_fails (Some [''run'', ''./w'', ''x'', ''5''])
                     initial_state)) = 0"
proof -
  have h: "fork_ret env_fork_fails < 0" "4 \<le> length [''run'', ''./w'', ''x'', ''5'']"
    "0 < atoi ([''run'', ''./w'', ''x'', ''5''] ! 3)" "run_index initial_state = int 0"
    by (simp_all add: env_fork_fails_def atoi_5 run_index_initial)
  have "status (process_records initial_state ! 0) = UNUSED"
    by (simp add: initial_state_fields MAX_PROCESSES_def unused_record_def)
  with h(1) run_leaves_state_on_fork_failure [OF h] show ?thesis
    by (simp add: run_index_initial)
qed

end
